theory Spec2Isabelle
  imports Main "HOL-Library.AList"
begin

section \<open>Python values and exceptions\<close>

text \<open>
  The coverage session of \<^verbatim>\<open>noxfile.py\<close> handles values decoded by \<^verbatim>\<open>json.loads\<close>.
  A decoded value is one of Python's \<^verbatim>\<open>None\<close>, \<^verbatim>\<open>bool\<close>, \<^verbatim>\<open>int\<close>, \<^verbatim>\<open>float\<close>,
  \<^verbatim>\<open>str\<close>, \<^verbatim>\<open>list\<close> or \<^verbatim>\<open>dict\<close> with string keys. A finite float is kept as a
  mantissa and a binary exponent; only whether it is zero matters below. A dict is an
  association list read with \<open>map_of\<close> (the first binding of a key is the one in force).
  Strings are lists of 8-bit characters.
\<close>

datatype pyfloat = Finite int int | PosInf | NegInf | NaN

datatype pyval =
    PNone
  | PBool bool
  | PInt int
  | PFloat pyfloat
  | PStr string
  | PList "pyval list"
  | PDict "(string \<times> pyval) list"

datatype pyerror =
    KeyError
  | TypeError
  | AssertionError
  | JSONDecodeError
  | CommandFailed
  | OSError

text \<open>Truth value testing, as \<^verbatim>\<open>if x:\<close> does it.\<close>

fun truthy :: "pyval \<Rightarrow> bool" where
  "truthy PNone = False"
| "truthy (PBool b) = b"
| "truthy (PInt i) = (i \<noteq> 0)"
| "truthy (PFloat f) = (case f of Finite m e \<Rightarrow> m \<noteq> 0 | _ \<Rightarrow> True)"
| "truthy (PStr s) = (s \<noteq> [])"
| "truthy (PList xs) = (xs \<noteq> [])"
| "truthy (PDict kvs) = (kvs \<noteq> [])"

text \<open>
  \<^verbatim>\<open>x[key]\<close> with a string key: a dict looks the key up and raises \<^verbatim>\<open>KeyError\<close> when
  it is missing; a list or a string wants an integer index and every other value is not
  subscriptable, both a \<^verbatim>\<open>TypeError\<close>.
\<close>

fun getitem :: "pyval \<Rightarrow> string \<Rightarrow> pyerror + pyval" where
  "getitem (PDict kvs) k = (case map_of kvs k of None \<Rightarrow> Inl KeyError | Some v \<Rightarrow> Inr v)"
| "getitem _ k = Inl TypeError"

text \<open>\<^verbatim>\<open>len(x)\<close>: defined on strings, lists and dicts, a \<^verbatim>\<open>TypeError\<close> elsewhere.\<close>

fun py_len :: "pyval \<Rightarrow> pyerror + nat" where
  "py_len (PStr s) = Inr (length s)"
| "py_len (PList xs) = Inr (length xs)"
| "py_len (PDict kvs) = Inr (length (remdups (map fst kvs)))"
| "py_len _ = Inl TypeError"

text \<open>
  The elements \<^verbatim>\<open>list.extend(x)\<close> appends: the items of a list, the one-character
  strings of a string, the keys of a dict.
\<close>

fun py_iter :: "pyval \<Rightarrow> pyerror + pyval list" where
  "py_iter (PStr s) = Inr (map (\<lambda>c. PStr [c]) s)"
| "py_iter (PList xs) = Inr xs"
| "py_iter (PDict kvs) = Inr (map PStr (remdups (map fst kvs)))"
| "py_iter _ = Inl TypeError"

section \<open>The build-message parser (noxfile.py, lines 190 to 201)\<close>

text \<open>
  \<^verbatim>\<open>str.splitlines()\<close> on 8-bit text: a line ends at LF, CR, CR LF, VT, FF, FS, GS, RS
  or NEL; the terminators are dropped and no empty last line is produced.
\<close>

definition is_linebreak :: "char \<Rightarrow> bool" where
  "is_linebreak c = (c \<in> set [CHR 0x0A, CHR 0x0B, CHR 0x0C, CHR 0x0D, CHR 0x1C, CHR 0x1D, CHR 0x1E, CHR 0x85])"

fun splitlines_from :: "string \<Rightarrow> string \<Rightarrow> string list" where
  "splitlines_from cur [] = (if cur = [] then [] else [cur])"
| "splitlines_from cur (c # cs) =
     (if c = CHR 0x0D \<and> cs \<noteq> [] \<and> hd cs = CHR 0x0A then cur # splitlines_from [] (tl cs)
      else if is_linebreak c then cur # splitlines_from [] cs
      else splitlines_from (cur @ [c]) cs)"

definition splitlines :: "string \<Rightarrow> string list" where
  "splitlines s = splitlines_from [] s"

text \<open>
  The body of the \<^verbatim>\<open>try\<close> block for one decoded message. \<^verbatim>\<open>filenames\<close> is mutated in
  place, so the body returns the list as it stands when the block is left, together with
  the exception that left it (if any).
\<close>

definition try_body :: "pyval \<Rightarrow> pyval list \<Rightarrow> pyerror option \<times> pyval list" where
  "try_body data filenames =
     (case getitem data ''profile'' of
        Inl e \<Rightarrow> (Some e, filenames)
      | Inr profile \<Rightarrow>
         (case getitem profile ''test'' of
            Inl e \<Rightarrow> (Some e, filenames)
          | Inr t \<Rightarrow>
             if truthy t then
               (case getitem data ''filenames'' of
                  Inl e \<Rightarrow> (Some e, filenames)
                | Inr fs \<Rightarrow>
                   (case py_len fs of
                      Inl e \<Rightarrow> (Some e, filenames)
                    | Inr n \<Rightarrow>
                       if n \<noteq> 1 then (Some AssertionError, filenames)
                       else
                         (let filenames1 = filenames @ [PStr ''-object''] in
                          case getitem data ''filenames'' of
                            Inl e \<Rightarrow> (Some e, filenames1)
                          | Inr fs' \<Rightarrow>
                             (case py_iter fs' of
                                Inl e \<Rightarrow> (Some e, filenames1)
                              | Inr items \<Rightarrow> (None, filenames1 @ items)))))
             else (None, filenames)))"

text \<open>\<^verbatim>\<open>except KeyError: pass\<close>: a \<^verbatim>\<open>KeyError\<close> is swallowed, every other exception goes on.\<close>

definition handle_blob :: "pyval \<Rightarrow> pyval list \<Rightarrow> pyerror + pyval list" where
  "handle_blob data filenames =
     (case try_body data filenames of
        (None, filenames') \<Rightarrow> Inr filenames'
      | (Some KeyError, filenames') \<Rightarrow> Inr filenames'
      | (Some e, filenames') \<Rightarrow> Inl e)"

text \<open>
  The \<^verbatim>\<open>for blob in json_blobs.splitlines()\<close> loop. \<^verbatim>\<open>json.loads\<close> belongs to the Python
  standard library and is a parameter here: \<open>Inl\<close> is the exception it raises. The call
  stands outside the \<^verbatim>\<open>try\<close> block, so its exception leaves the loop.
\<close>

fun parse_blobs :: "(string \<Rightarrow> pyerror + pyval) \<Rightarrow> string list \<Rightarrow> pyval list \<Rightarrow> pyerror + pyval list" where
  "parse_blobs loads [] filenames = Inr filenames"
| "parse_blobs loads (blob # rest) filenames =
     (case loads blob of
        Inl e \<Rightarrow> Inl e
      | Inr data \<Rightarrow>
         (case handle_blob data filenames of
            Inl e \<Rightarrow> Inl e
          | Inr filenames' \<Rightarrow> parse_blobs loads rest filenames'))"

section \<open>Sessions, effects and the outside world\<close>

text \<open>
  What \<^verbatim>\<open>session.run\<close> returns: the captured output when \<^verbatim>\<open>silent=True\<close>, \<^verbatim>\<open>True\<close>
  when the output is streamed, \<^verbatim>\<open>None\<close> when nox skips the command.
\<close>

datatype run_return = RNone | RTrue | RStr string

fun ret_truthy :: "run_return \<Rightarrow> bool" where
  "ret_truthy RNone = False"
| "ret_truthy RTrue = True"
| "ret_truthy (RStr s) = (s \<noteq> [])"

text \<open>
  The observable actions of a session, in the order they happen. \<open>Install\<close> and \<open>Run\<close>
  carry the session environment the command is started with; \<open>Run\<close> also carries the
  \<^verbatim>\<open>silent\<close> flag and the file its standard output is redirected to. \<open>Chdir\<close> and \<open>Open\<close>
  are recorded when they succeed.
\<close>

datatype event =
    Install "string list" "(string \<times> string) list"
  | Run "pyval list" "(string \<times> string) list" bool "string option"
  | Glob string bool
  | Chdir string
  | Open string string
  | Close string

text \<open>
  The outside world answers every action as a function of the history so far: whether a
  command fails and what it returns, what a glob pattern matches, whether a directory
  change or an \<^verbatim>\<open>open\<close> fails, and what \<^verbatim>\<open>json.loads\<close> decodes.
\<close>

record world =
  w_run :: "event list \<Rightarrow> event \<Rightarrow> pyerror + run_return"
  w_glob :: "event list \<Rightarrow> event \<Rightarrow> string list"
  w_sys :: "event list \<Rightarrow> event \<Rightarrow> pyerror option"
  w_loads :: "string \<Rightarrow> pyerror + pyval"

text \<open>The fixed attributes of a nox session, and the state a session changes.\<close>

record session =
  s_name :: string
  s_posargs :: "string list"
  s_venv_location :: string

record state =
  st_env :: "(string \<times> string) list"
  st_cwd :: string
  st_open :: "string list"
  st_trace :: "event list"

type_synonym 'a prog = "state \<Rightarrow> (pyerror + 'a) \<times> state"

definition returnP :: "'a \<Rightarrow> 'a prog" where
  "returnP x = (\<lambda>s. (Inr x, s))"

definition raiseP :: "pyerror \<Rightarrow> 'a prog" where
  "raiseP e = (\<lambda>s. (Inl e, s))"

definition bindP :: "'a prog \<Rightarrow> ('a \<Rightarrow> 'b prog) \<Rightarrow> 'b prog" where
  "bindP m k = (\<lambda>s. case m s of (Inl e, s') \<Rightarrow> (Inl e, s') | (Inr x, s') \<Rightarrow> k x s')"

definition thenP :: "'a prog \<Rightarrow> 'b prog \<Rightarrow> 'b prog" where
  "thenP m n = bindP m (\<lambda>_. n)"

definition emit :: "event \<Rightarrow> state \<Rightarrow> state" where
  "emit ev s = s\<lparr>st_trace := st_trace s @ [ev]\<rparr>"

text \<open>\<^verbatim>\<open>session.run(*argv, external=True, silent=..., stdout=...)\<close>.\<close>

definition session_run :: "world \<Rightarrow> pyval list \<Rightarrow> bool \<Rightarrow> string option \<Rightarrow> run_return prog" where
  "session_run w argv silent out =
     (\<lambda>s. let ev = Run argv (st_env s) silent out in (w_run w (st_trace s) ev, emit ev s))"

text \<open>\<^verbatim>\<open>session.install(*argv, silent=False)\<close>; its return value is not used.\<close>

definition session_install :: "world \<Rightarrow> string list \<Rightarrow> unit prog" where
  "session_install w argv =
     (\<lambda>s. let ev = Install argv (st_env s) in
        (case w_run w (st_trace s) ev of Inl e \<Rightarrow> Inl e | Inr r \<Rightarrow> Inr (), emit ev s))"

text \<open>\<^verbatim>\<open>glob.glob(pattern, recursive=...)\<close>: an empty result is a result, not an error.\<close>

definition glob_glob :: "world \<Rightarrow> string \<Rightarrow> bool \<Rightarrow> string list prog" where
  "glob_glob w pattern recursive =
     (\<lambda>s. let ev = Glob pattern recursive in (Inr (w_glob w (st_trace s) ev), emit ev s))"

text \<open>\<^verbatim>\<open>session.env.update({...})\<close>: each key of the literal is set, in order.\<close>

definition env_update :: "(string \<times> string) list \<Rightarrow> unit prog" where
  "env_update kvs =
     (\<lambda>s. (Inr (), s\<lparr>st_env := foldl (\<lambda>env kv. AList.update (fst kv) (snd kv) env) (st_env s) kvs\<rparr>))"

definition path_join :: "string \<Rightarrow> string \<Rightarrow> string" where
  "path_join cwd d = (if d \<noteq> [] \<and> hd d = CHR ''/'' then d else cwd @ ''/'' @ d)"

text \<open>
  \<^verbatim>\<open>with session.chdir(d): body\<close>. nox's \<^verbatim>\<open>chdir\<close> remembers the current directory and
  changes to \<open>d\<close> at once (an \<^verbatim>\<open>OSError\<close> there leaves the directory as it was and the body
  is not run); the context manager's exit changes back to the remembered directory,
  however the body is left. The way back is taken to succeed.
\<close>

definition with_chdir :: "world \<Rightarrow> string \<Rightarrow> 'a prog \<Rightarrow> 'a prog" where
  "with_chdir w d body =
     (\<lambda>s. case w_sys w (st_trace s) (Chdir d) of
        Some e \<Rightarrow> (Inl e, s)
      | None \<Rightarrow>
         (let prev = st_cwd s;
              (r, s') = body ((emit (Chdir d) s)\<lparr>st_cwd := path_join prev d\<rparr>)
          in (r, (emit (Chdir prev) s')\<lparr>st_cwd := prev\<rparr>)))"

text \<open>
  \<^verbatim>\<open>with open(path, mode) as f: body\<close>. A failing \<^verbatim>\<open>open\<close> raises and creates no handle;
  otherwise the handle is closed when the body is left, by return or by exception.
\<close>

definition with_open :: "world \<Rightarrow> string \<Rightarrow> string \<Rightarrow> 'a prog \<Rightarrow> 'a prog" where
  "with_open w path mode body =
     (\<lambda>s. case w_sys w (st_trace s) (Open path mode) of
        Some e \<Rightarrow> (Inl e, s)
      | None \<Rightarrow>
         (let (r, s') = body ((emit (Open path mode) s)\<lparr>st_open := path # st_open s\<rparr>)
          in (r, (emit (Close path) s')\<lparr>st_open := remove1 path (st_open s')\<rparr>)))"

section \<open>The sessions of noxfile.py\<close>

definition install :: "world \<Rightarrow> string list \<Rightarrow> unit prog" where
  "install w args = session_install w ([''-v'', ''-c'', ''ci-constraints-requirements.txt''] @ args)"

definition extras :: "session \<Rightarrow> string" where
  "extras sess =
     ''test''
       @ (if s_name sess = ''tests-ssh'' then '',ssh'' else [])
       @ (if s_name sess = ''tests-randomorder'' then '',test-randomorder'' else [])"

definition cov_args :: "session \<Rightarrow> string list" where
  "cov_args sess =
     (if s_name sess \<noteq> ''tests-nocoverage'' then [''--cov=cryptography'', ''--cov=tests''] else [])"

definition tests :: "world \<Rightarrow> session \<Rightarrow> unit prog" where
  "tests w sess =
     thenP (install w [''.['' @ extras sess @ '']''])
    (thenP (install w [''-e'', ''./vectors''])
    (thenP (session_run w (map PStr [''pip'', ''list'']) False None)
    (thenP (session_run w
              (map PStr ([''pytest'', ''-n'', ''auto'', ''--dist=worksteal''] @ cov_args sess
                 @ [''--durations=10''] @ s_posargs sess @ [''tests/'']))
              False None)
           (returnP ()))))"

definition rust :: "world \<Rightarrow> session \<Rightarrow> unit prog" where
  "rust w sess =
     thenP (install w [''.''])
       (with_chdir w ''src/rust/''
         (thenP (session_run w (map PStr [''cargo'', ''fmt'', ''--all'', ''--'', ''--check'']) False None)
         (thenP (session_run w (map PStr [''cargo'', ''clippy'', ''--'', ''-D'', ''warnings'']) False None)
         (thenP (session_run w (map PStr [''cargo'', ''test'', ''--no-default-features'']) False None)
                (returnP ())))))"

subsection \<open>rust_coverage, stage by stage\<close>

definition coverage_env :: "(string \<times> string) list" where
  "coverage_env =
     [(''RUSTFLAGS'', ''-Cinstrument-coverage''),
      (''LLVM_PROFILE_FILE'', ''rust-cov/cov-%p.profraw'')]"

text \<open>Lines 166 to 176: the merge command, whatever \<^verbatim>\<open>paths\<close> holds.\<close>

definition merge_argv :: "string list \<Rightarrow> pyval list" where
  "merge_argv paths =
     map PStr ([''cargo'', ''profdata'', ''--'', ''merge'', ''-sparse''] @ paths
               @ [''-o'', ''rust-cov.profdata''])"

definition merge_profiles :: "world \<Rightarrow> string list \<Rightarrow> run_return prog" where
  "merge_profiles w paths = session_run w (merge_argv paths) False None"

text \<open>Lines 178 to 189: the build-message run, output captured.\<close>

definition json_argv :: "pyval list" where
  "json_argv =
     map PStr [''cargo'', ''test'', ''--no-default-features'', ''--all'', ''--tests'', ''--no-run'',
               ''-q'', ''--message-format=json'']"

text \<open>Lines 206 to 221: the export command, its output redirected to the report.\<close>

definition report_path :: string where
  "report_path = ''../../cov.lcov''"

definition export_argv :: "string list \<Rightarrow> pyval list \<Rightarrow> pyval list" where
  "export_argv rust_so filenames =
     map PStr [''cargo'', ''cov'', ''--'', ''export''] @ map PStr rust_so @ filenames
     @ map PStr [''-instr-profile=rust-cov.profdata'',
                 ''--ignore-filename-regex='' @ [CHR 0x27] @ ''/.cargo/'' @ [CHR 0x27],
                 ''--ignore-filename-regex='' @ [CHR 0x27] @ ''/rustc/'' @ [CHR 0x27],
                 ''--ignore-filename-regex='' @ [CHR 0x27] @ ''/.rustup/toolchains/'' @ [CHR 0x27],
                 ''--format=lcov'']"

definition rust_so_pattern :: "session \<Rightarrow> string" where
  "rust_so_pattern sess =
     s_venv_location sess @ ''/lib/**/site-packages/cryptography/hazmat/bindings/_rust_abi3.so''"

definition export_report :: "world \<Rightarrow> session \<Rightarrow> pyval list \<Rightarrow> unit prog" where
  "export_report w sess filenames =
     bindP (glob_glob w (rust_so_pattern sess) False) (\<lambda>rust_so.
       with_open w report_path ''wb''
         (thenP (session_run w (export_argv rust_so filenames) False (Some report_path))
                (returnP ())))"

text \<open>
  Lines 190 to 221: everything after the captured output is bound to \<^verbatim>\<open>json_blobs\<close>.
  The parse loop changes no state but \<^verbatim>\<open>filenames\<close>; an exception in it leaves the block
  before the shared object is looked for.
\<close>

definition process_blobs :: "world \<Rightarrow> session \<Rightarrow> run_return \<Rightarrow> unit prog" where
  "process_blobs w sess json_blobs =
     (if ret_truthy json_blobs then
        (case json_blobs of
           RStr text \<Rightarrow>
             (\<lambda>s. case parse_blobs (w_loads w) (splitlines text) [] of
                Inl e \<Rightarrow> (Inl e, s)
              | Inr filenames \<Rightarrow> export_report w sess filenames s)
         | _ \<Rightarrow> raiseP AssertionError)
      else returnP ())"

text \<open>Lines 164 to 189: the statements of the \<^verbatim>\<open>with\<close> block up to the captured run.\<close>

definition capture_blobs :: "world \<Rightarrow> run_return prog" where
  "capture_blobs w =
     thenP (session_run w (map PStr [''cargo'', ''test'', ''--no-default-features'']) False None)
    (bindP (glob_glob w ''**/*.profraw'' True) (\<lambda>paths.
     thenP (merge_profiles w paths)
           (session_run w json_argv True None)))"

definition coverage_body :: "world \<Rightarrow> session \<Rightarrow> unit prog" where
  "coverage_body w sess = bindP (capture_blobs w) (process_blobs w sess)"

definition rust_coverage :: "world \<Rightarrow> session \<Rightarrow> unit prog" where
  "rust_coverage w sess =
     thenP (env_update coverage_env)
    (thenP (tests w sess)
           (with_chdir w ''src/rust/'' (coverage_body w sess)))"

section \<open>Notions used to state the properties\<close>

text \<open>
  The path of a test-profile record with exactly one path: the message has a
  \<^verbatim>\<open>profile\<close> whose \<^verbatim>\<open>test\<close> entry is true and a \<^verbatim>\<open>filenames\<close> list of one element.
\<close>

definition record_path :: "pyval \<Rightarrow> pyval option" where
  "record_path data =
     (case getitem data ''profile'' of
        Inl e \<Rightarrow> None
      | Inr p \<Rightarrow>
         (case getitem p ''test'' of
            Inl e \<Rightarrow> None
          | Inr t \<Rightarrow>
             if truthy t then
               (case getitem data ''filenames'' of
                  Inr (PList [x]) \<Rightarrow> Some x
                | _ \<Rightarrow> None)
             else None))"

text \<open>The paths of those records in a stream of lines, in the order of the stream.\<close>

definition record_paths :: "(string \<Rightarrow> pyerror + pyval) \<Rightarrow> string list \<Rightarrow> pyval list" where
  "record_paths loads lines =
     List.map_filter (\<lambda>blob. case loads blob of Inl e \<Rightarrow> None | Inr data \<Rightarrow> record_path data) lines"

text \<open>
  A line of the stream that is either such a record or a message the loop passes over
  without touching the list.
\<close>

definition record_or_passed :: "(string \<Rightarrow> pyerror + pyval) \<Rightarrow> string \<Rightarrow> bool" where
  "record_or_passed loads blob =
     (case loads blob of
        Inl e \<Rightarrow> False
      | Inr data \<Rightarrow> record_path data \<noteq> None \<or> handle_blob data [] = Inr [])"

text \<open>The environment a command of the trace was started with, if it is a command.\<close>

fun event_env :: "event \<Rightarrow> (string \<times> string) list option" where
  "event_env (Install argv env) = Some env"
| "event_env (Run argv env silent out) = Some env"
| "event_env _ = None"

fun is_open_event :: "event \<Rightarrow> bool" where
  "is_open_event (Open path mode) = True"
| "is_open_event _ = False"

fun is_chdir_event :: "event \<Rightarrow> bool" where
  "is_chdir_event (Chdir d) = True"
| "is_chdir_event _ = False"

text \<open>
  Two ways to speak about a whole session: \<open>keeps f m\<close> says that \<open>m\<close> leaves the
  component \<open>f\<close> of the state as it found it, however it ends; \<open>emits Q m\<close> says that \<open>m\<close>
  leaves the environment alone and only adds events to the trace, each satisfying \<open>Q\<close>
  for that environment.
\<close>

definition keeps :: "(state \<Rightarrow> 'b) \<Rightarrow> 'a prog \<Rightarrow> bool" where
  "keeps f m = (\<forall>s. f (snd (m s)) = f s)"

definition emits :: "((string \<times> string) list \<Rightarrow> event \<Rightarrow> bool) \<Rightarrow> 'a prog \<Rightarrow> bool" where
  "emits Q m =
     (\<forall>s. st_env (snd (m s)) = st_env s
          \<and> (\<exists>es. st_trace (snd (m s)) = st_trace s @ es \<and> (\<forall>ev\<in>set es. Q (st_env s) ev)))"

subsection \<open>Sample messages and a sample world\<close>

text \<open>
  Lines as cargo prints them with \<^verbatim>\<open>--message-format=json\<close>, cut down to the fields the
  parser reads, and a decoder that agrees with \<^verbatim>\<open>json.loads\<close> on them and rejects every
  other line.
\<close>

definition msg_test_bin1 :: string where
  "msg_test_bin1 = ''{\"reason\":\"compiler-artifact\",\"profile\":{\"test\":true},\"filenames\":[\"bin1\"]}''"

definition msg_test_bin2 :: string where
  "msg_test_bin2 = ''{\"reason\":\"compiler-artifact\",\"profile\":{\"test\":true},\"filenames\":[\"bin2\"]}''"

definition msg_lib :: string where
  "msg_lib = ''{\"reason\":\"compiler-artifact\",\"profile\":{\"test\":false},\"filenames\":[\"a.rlib\",\"a.so\"]}''"

definition msg_finished :: string where
  "msg_finished = ''{\"reason\":\"build-finished\",\"success\":true}''"

definition msg_two_paths :: string where
  "msg_two_paths = ''{\"reason\":\"compiler-artifact\",\"profile\":{\"test\":true},\"filenames\":[\"x\",\"y\"]}''"

definition msg_no_paths :: string where
  "msg_no_paths = ''{\"reason\":\"compiler-artifact\",\"profile\":{\"test\":true},\"filenames\":[]}''"

definition msg_no_filenames :: string where
  "msg_no_filenames = ''{\"reason\":\"compiler-artifact\",\"profile\":{\"test\":true}}''"

definition artifact :: "bool \<Rightarrow> pyval list \<Rightarrow> pyval" where
  "artifact t fs =
     PDict [(''reason'', PStr ''compiler-artifact''), (''profile'', PDict [(''test'', PBool t)]),
            (''filenames'', PList fs)]"

definition demo_loads :: "string \<Rightarrow> pyerror + pyval" where
  "demo_loads blob =
     (if blob = msg_test_bin1 then Inr (artifact True [PStr ''bin1''])
      else if blob = msg_test_bin2 then Inr (artifact True [PStr ''bin2''])
      else if blob = msg_lib then Inr (artifact False [PStr ''a.rlib'', PStr ''a.so''])
      else if blob = msg_finished then
        Inr (PDict [(''reason'', PStr ''build-finished''), (''success'', PBool True)])
      else if blob = msg_two_paths then Inr (artifact True [PStr ''x'', PStr ''y''])
      else if blob = msg_no_paths then Inr (artifact True [])
      else if blob = msg_no_filenames then
        Inr (PDict [(''reason'', PStr ''compiler-artifact''), (''profile'', PDict [(''test'', PBool True)])])
      else Inl JSONDecodeError)"

text \<open>
  A world in which the recursive glob finds \<open>fragments\<close>, the other glob finds one shared
  object, the captured run prints \<open>out\<close>, the commands whose arguments satisfy \<open>fails\<close>
  exit non-zero, and every \<^verbatim>\<open>chdir\<close> and \<^verbatim>\<open>open\<close> succeeds.
\<close>

definition demo_so :: string where
  "demo_so = ''/venv/lib/python3.11/site-packages/cryptography/hazmat/bindings/_rust_abi3.so''"

definition demo_world :: "string list \<Rightarrow> run_return \<Rightarrow> (pyval list \<Rightarrow> bool) \<Rightarrow> world" where
  "demo_world fragments out fails =
     \<lparr> w_run = (\<lambda>h ev. case ev of
                  Run argv env silent f \<Rightarrow>
                    if fails argv then Inl CommandFailed else if silent then Inr out else Inr RTrue
                | _ \<Rightarrow> Inr RNone),
       w_glob = (\<lambda>h ev. case ev of Glob pat r \<Rightarrow> if r then fragments else [demo_so] | _ \<Rightarrow> []),
       w_sys = (\<lambda>h ev. None),
       w_loads = demo_loads \<rparr>"

definition demo_session :: session where
  "demo_session = \<lparr> s_name = ''rust_coverage'', s_posargs = [], s_venv_location = ''/venv'' \<rparr>"

definition demo_state :: state where
  "demo_state = \<lparr> st_env = [(''PATH'', ''/usr/bin'')], st_cwd = ''/repo'', st_open = [], st_trace = [] \<rparr>"

section \<open>The parser: helper lemmas\<close>

lemma handle_blob_no_profile:
  "getitem data ''profile'' = Inl KeyError \<Longrightarrow> handle_blob data fl = Inr fl"
  by (simp add: handle_blob_def try_body_def)

lemma handle_blob_no_test:
  "getitem data ''profile'' = Inr p \<Longrightarrow> getitem p ''test'' = Inl KeyError \<Longrightarrow>
   handle_blob data fl = Inr fl"
  by (simp add: handle_blob_def try_body_def)

lemma handle_blob_no_filenames:
  "getitem data ''profile'' = Inr p \<Longrightarrow> getitem p ''test'' = Inr t \<Longrightarrow> truthy t \<Longrightarrow>
   getitem data ''filenames'' = Inl KeyError \<Longrightarrow> handle_blob data fl = Inr fl"
  by (simp add: handle_blob_def try_body_def)

lemma handle_blob_bad_len:
  "getitem data ''profile'' = Inr p \<Longrightarrow> getitem p ''test'' = Inr t \<Longrightarrow> truthy t \<Longrightarrow>
   getitem data ''filenames'' = Inr fs \<Longrightarrow> py_len fs = Inr n \<Longrightarrow> n \<noteq> 1 \<Longrightarrow>
   handle_blob data fl = Inl AssertionError"
  by (simp add: handle_blob_def try_body_def)

lemma handle_blob_one_path:
  "getitem data ''profile'' = Inr p \<Longrightarrow> getitem p ''test'' = Inr t \<Longrightarrow> truthy t \<Longrightarrow>
   getitem data ''filenames'' = Inr (PList [x]) \<Longrightarrow>
   handle_blob data fl = Inr (fl @ [PStr ''-object'', x])"
  by (simp add: handle_blob_def try_body_def)

lemma parse_blobs_append:
  "parse_blobs loads (xs @ ys) fl =
     (case parse_blobs loads xs fl of Inl e \<Rightarrow> Inl e | Inr fl' \<Rightarrow> parse_blobs loads ys fl')"
  by (induction xs arbitrary: fl) (auto split: sum.splits)

lemma parse_blobs_skip:
  assumes "loads blob = Inr data" and "\<And>fl. handle_blob data fl = Inr fl"
  shows "parse_blobs loads (pre @ blob # post) fl = parse_blobs loads (pre @ post) fl"
  using assms by (simp add: parse_blobs_append split: sum.splits)

lemma parse_blobs_abort:
  assumes "loads blob = Inr data" and "\<And>fl. handle_blob data fl = Inl err"
  shows "\<exists>e. parse_blobs loads (pre @ blob # post) fl = Inl e"
  using assms by (cases "parse_blobs loads pre fl") (simp_all add: parse_blobs_append)

lemma parse_blobs_abort_at:
  assumes "loads blob = Inr data" and "\<And>fl. handle_blob data fl = Inl err"
    and "parse_blobs loads pre fl = Inr fl0"
  shows "parse_blobs loads (pre @ blob # post) fl = Inl err"
  using assms by (simp add: parse_blobs_append)

lemma parse_blobs_decode_error:
  assumes "loads blob = Inl e" and "parse_blobs loads pre fl = Inr fl0"
  shows "parse_blobs loads (pre @ blob # post) fl = Inl e"
  using assms by (simp add: parse_blobs_append)

text \<open>When the \<^verbatim>\<open>try\<close> block leaves an empty list empty, it leaves every list as it is.\<close>

lemma try_body_shift:
  assumes "snd (try_body data []) = []"
  shows "try_body data fl = (fst (try_body data []), fl)"
proof (cases "getitem data ''profile''")
  case (Inl e)
  then show ?thesis by (simp add: try_body_def)
next
  case p: (Inr profile)
  show ?thesis
  proof (cases "getitem profile ''test''")
    case (Inl e)
    with p show ?thesis by (simp add: try_body_def)
  next
    case t: (Inr t)
    show ?thesis
    proof (cases "truthy t")
      case False
      with p t show ?thesis by (simp add: try_body_def)
    next
      case True
      show ?thesis
      proof (cases "getitem data ''filenames''")
        case (Inl e)
        with p t True show ?thesis by (simp add: try_body_def)
      next
        case fs: (Inr fs)
        show ?thesis
        proof (cases "py_len fs")
          case (Inl e)
          with p t True fs show ?thesis by (simp add: try_body_def)
        next
          case (Inr n)
          with p t True fs assms show ?thesis
            by (cases "py_iter fs") (simp_all add: try_body_def Let_def split: if_splits)
        qed
      qed
    qed
  qed
qed

lemma handle_blob_passed_any:
  assumes "handle_blob data [] = Inr []"
  shows "handle_blob data fl = Inr fl"
proof -
  obtain e fl0 where tb: "try_body data [] = (e, fl0)"
    by (cases "try_body data []")
  with assms have "fl0 = []"
    by (cases e) (auto simp: handle_blob_def split: pyerror.splits)
  with tb have "try_body data fl = (e, fl)"
    using try_body_shift[of data fl] by simp
  with assms tb show ?thesis
    by (cases e) (auto simp: handle_blob_def split: pyerror.splits)
qed

lemma record_path_handle_blob:
  assumes "record_path data = Some x"
  shows "handle_blob data fl = Inr (fl @ [PStr ''-object'', x])"
proof -
  from assms obtain p where p: "getitem data ''profile'' = Inr p"
    by (cases "getitem data ''profile''") (simp_all add: record_path_def)
  from assms p obtain t where t: "getitem p ''test'' = Inr t"
    by (cases "getitem p ''test''") (simp_all add: record_path_def)
  from assms p t have tr: "truthy t"
    by (cases "truthy t") (simp_all add: record_path_def)
  from assms p t tr have "getitem data ''filenames'' = Inr (PList [x])"
    by (simp add: record_path_def split: sum.splits pyval.splits list.splits)
  with p t tr show ?thesis by (rule handle_blob_one_path)
qed

lemma parse_blobs_records:
  assumes "\<forall>blob\<in>set lines. record_or_passed loads blob"
  shows "parse_blobs loads lines fl =
           Inr (fl @ concat (map (\<lambda>p. [PStr ''-object'', p]) (record_paths loads lines)))"
  using assms
proof (induction lines arbitrary: fl)
  case Nil
  show ?case by (simp add: record_paths_def List.map_filter_simps)
next
  case (Cons blob rest)
  from Cons.prems obtain data where d: "loads blob = Inr data"
    and c: "record_path data \<noteq> None \<or> handle_blob data [] = Inr []"
    by (cases "loads blob") (auto simp: record_or_passed_def)
  from Cons.prems have rest: "\<forall>b\<in>set rest. record_or_passed loads b" by simp
  show ?case
  proof (cases "record_path data")
    case None
    with c have "handle_blob data fl = Inr fl" by (simp add: handle_blob_passed_any)
    with d None Cons.IH[OF rest, of fl] show ?thesis
      by (simp add: record_paths_def List.map_filter_simps)
  next
    case (Some x)
    then have "handle_blob data fl = Inr (fl @ [PStr ''-object'', x])"
      by (rule record_path_handle_blob)
    with d Some Cons.IH[OF rest, of "fl @ [PStr ''-object'', x]"] show ?thesis
      by (simp add: record_paths_def List.map_filter_simps)
  qed
qed

lemma length_marked: "length (concat (map (\<lambda>p. [m, p]) ps)) = 2 * length ps"
  by (induction ps) simp_all

lemma marked_nth:
  "i < length ps \<Longrightarrow>
     concat (map (\<lambda>p. [m, p]) ps) ! (2 * i) = m \<and> concat (map (\<lambda>p. [m, p]) ps) ! (2 * i + 1) = ps ! i"
proof (induction ps arbitrary: i)
  case Nil
  then show ?case by simp
next
  case (Cons q qs)
  show ?case
  proof (cases i)
    case 0
    then show ?thesis by simp
  next
    case (Suc j)
    with Cons.prems have "j < length qs" by simp
    from Cons.IH[OF this] Suc show ?thesis by simp
  qed
qed

lemma marked_paths:
  "map (\<lambda>i. concat (map (\<lambda>p. [m, p]) ps) ! (2 * i + 1)) [0..<length ps] = ps"
  by (rule nth_equalityI) (simp_all add: marked_nth[simplified])

lemma splitlines_from_nonempty: "splitlines_from cur out \<noteq> [] \<Longrightarrow> cur \<noteq> [] \<or> out \<noteq> []"
  by (cases out) (auto split: if_splits)

lemma splitlines_nonempty: "splitlines out = pre @ blob # post \<Longrightarrow> out \<noteq> []"
  using splitlines_from_nonempty[of "[]" out] by (auto simp: splitlines_def)


section \<open>Unfolding the samples\<close>

lemmas msg_defs = msg_test_bin1_def msg_test_bin2_def msg_lib_def msg_finished_def
  msg_two_paths_def msg_no_paths_def msg_no_filenames_def

lemmas parse_defs = demo_loads_def artifact_def handle_blob_def try_body_def
  record_path_def record_paths_def record_or_passed_def List.map_filter_simps

lemmas run_defs = rust_coverage_def rust_def tests_def install_def coverage_body_def
  capture_blobs_def process_blobs_def export_report_def merge_profiles_def
  session_run_def session_install_def glob_glob_def env_update_def with_chdir_def
  with_open_def bindP_def thenP_def returnP_def raiseP_def emit_def Let_def
  demo_world_def demo_session_def demo_state_def coverage_env_def extras_def cov_args_def
  splitlines_def is_linebreak_def

section \<open>Properties of the parser\<close>

text \<open>
  C9. A decoded message whose \<^verbatim>\<open>profile.test\<close> is true and which has no \<^verbatim>\<open>filenames\<close>
  key at all is passed over: the lookup inside the \<^verbatim>\<open>assert\<close> raises \<^verbatim>\<open>KeyError\<close>, which
  the handler swallows, so no \<^verbatim>\<open>AssertionError\<close> is raised, the list of references is as
  it was, and the loop goes on with the next line.
\<close>

theorem missing_path_list_is_skipped:
  assumes "loads blob = Inr (PDict kvs)"
    and "map_of kvs ''profile'' = Some p" and "getitem p ''test'' = Inr t" and "truthy t"
    and "map_of kvs ''filenames'' = None"
  shows "handle_blob (PDict kvs) fl = Inr fl
       \<and> handle_blob (PDict kvs) fl \<noteq> Inl AssertionError
       \<and> parse_blobs loads (blob # rest) fl = parse_blobs loads rest fl"
proof -
  have "handle_blob (PDict kvs) fl = Inr fl"
    using assms by (intro handle_blob_no_filenames[of _ p t]) simp_all
  with assms(1) show ?thesis by simp
qed

theorem missing_path_list_is_skipped_witness:
  "handle_blob (PDict [(''reason'', PStr ''compiler-artifact''), (''profile'', PDict [(''test'', PBool True)])])
      [PStr ''-object'', PStr ''bin1''] = Inr [PStr ''-object'', PStr ''bin1'']
   \<and> parse_blobs demo_loads [msg_no_filenames, msg_test_bin2] [] = parse_blobs demo_loads [msg_test_bin2] []"
  using missing_path_list_is_skipped[where loads = demo_loads and blob = msg_no_filenames
      and kvs = "[(''reason'', PStr ''compiler-artifact''), (''profile'', PDict [(''test'', PBool True)])]"
      and p = "PDict [(''test'', PBool True)]" and t = "PBool True"
      and fl = "[PStr ''-object'', PStr ''bin1'']" and rest = "[msg_test_bin2]"]
    missing_path_list_is_skipped[where loads = demo_loads and blob = msg_no_filenames
      and kvs = "[(''reason'', PStr ''compiler-artifact''), (''profile'', PDict [(''test'', PBool True)])]"
      and p = "PDict [(''test'', PBool True)]" and t = "PBool True"
      and fl = "[]" and rest = "[msg_test_bin2]"]
  by (simp add: demo_loads_def msg_defs)

text \<open>
  C2, as the code has it. A line that decodes to a value in which a looked-up field is
  missing (no \<^verbatim>\<open>profile\<close>; a \<^verbatim>\<open>profile\<close> without \<^verbatim>\<open>test\<close>; a true \<^verbatim>\<open>test\<close> without
  \<^verbatim>\<open>filenames\<close>) is passed over: the list is unchanged and the result of the whole loop is
  the result without that line. A line that fails to decode is not passed over:
  \<^verbatim>\<open>json.loads\<close> is called outside the \<^verbatim>\<open>try\<close> block, and when the lines before it went
  through, its exception is the result of the loop.
\<close>

theorem lacking_field_skipped_decode_error_fatal:
  "(loads blob = Inr data \<and>
      (getitem data ''profile'' = Inl KeyError
       \<or> (getitem data ''profile'' = Inr p \<and> getitem p ''test'' = Inl KeyError)
       \<or> (getitem data ''profile'' = Inr p \<and> getitem p ''test'' = Inr t \<and> truthy t
            \<and> getitem data ''filenames'' = Inl KeyError))
     \<longrightarrow> handle_blob data fl = Inr fl
         \<and> parse_blobs loads (pre @ blob # post) fl0 = parse_blobs loads (pre @ post) fl0)
   \<and> (loads blob = Inl e \<and> parse_blobs loads pre fl0 = Inr fl1
     \<longrightarrow> parse_blobs loads (pre @ blob # post) fl0 = Inl e)"
proof (intro conjI impI)
  assume a: "loads blob = Inr data \<and>
      (getitem data ''profile'' = Inl KeyError
       \<or> (getitem data ''profile'' = Inr p \<and> getitem p ''test'' = Inl KeyError)
       \<or> (getitem data ''profile'' = Inr p \<and> getitem p ''test'' = Inr t \<and> truthy t
            \<and> getitem data ''filenames'' = Inl KeyError))"
  then have skip: "handle_blob data f = Inr f" for f
    using handle_blob_no_profile[of data f] handle_blob_no_test[of data p f]
      handle_blob_no_filenames[of data p t f] by blast
  show "handle_blob data fl = Inr fl" by (rule skip)
  from a have "loads blob = Inr data" by simp
  then show "parse_blobs loads (pre @ blob # post) fl0 = parse_blobs loads (pre @ post) fl0"
    using skip by (rule parse_blobs_skip)
next
  assume "loads blob = Inl e \<and> parse_blobs loads pre fl0 = Inr fl1"
  then show "parse_blobs loads (pre @ blob # post) fl0 = Inl e"
    using parse_blobs_decode_error[of loads blob e pre fl0 fl1 post] by simp
qed

theorem lacking_field_skipped_decode_error_fatal_witness:
  "parse_blobs demo_loads [msg_test_bin1, msg_finished, msg_test_bin2] []
     = parse_blobs demo_loads [msg_test_bin1, msg_test_bin2] []
   \<and> parse_blobs demo_loads [msg_test_bin1, ''not json'', msg_test_bin2] [] = Inl JSONDecodeError"
  using lacking_field_skipped_decode_error_fatal[where loads = demo_loads and blob = msg_finished
      and data = "PDict [(''reason'', PStr ''build-finished''), (''success'', PBool True)]"
      and pre = "[msg_test_bin1]" and post = "[msg_test_bin2]" and ?fl0.0 = "[]"]
    lacking_field_skipped_decode_error_fatal[where loads = demo_loads and blob = "''not json''"
      and e = JSONDecodeError and pre = "[msg_test_bin1]" and post = "[msg_test_bin2]"
      and ?fl0.0 = "[]" and ?fl1.0 = "[PStr ''-object'', PStr ''bin1'']"]
  by (simp add: msg_defs parse_defs)

text \<open>
  C2 as stated fails: the line \<^verbatim>\<open>not json\<close> does not decode, and the loop, and with it
  the whole session, ends with the decoder's exception.
\<close>

theorem decode_error_aborts_counterexample:
  "parse_blobs demo_loads [msg_test_bin1, ''not json''] [] = Inl JSONDecodeError
   \<and> fst (rust_coverage
         (demo_world [''a.profraw''] (RStr (msg_test_bin1 @ [CHR 0x0A] @ ''not json'' @ [CHR 0x0A])) (\<lambda>argv. False))
         demo_session demo_state) = Inl JSONDecodeError"
  by (simp add: msg_defs parse_defs run_defs)


text \<open>
  C5, as the code has it. When every line of the stream decodes and is either a
  test-profile record with exactly one path or a message the loop passes over, and the
  stream holds \<open>M\<close> such records, the loop ends normally with a list of \<open>M\<close> path
  entries, the paths of the records in the order of the stream, each right after its
  marker \<^verbatim>\<open>-object\<close>, and nothing else.
\<close>

theorem records_give_marked_entries:
  assumes "\<forall>blob\<in>set lines. record_or_passed loads blob"
    and "length (record_paths loads lines) = M"
  shows "\<exists>fl. parse_blobs loads lines [] = Inr fl
            \<and> fl = concat (map (\<lambda>p. [PStr ''-object'', p]) (record_paths loads lines))
            \<and> map (\<lambda>i. fl ! (2 * i + 1)) [0..<M] = record_paths loads lines
            \<and> (\<forall>i<M. fl ! (2 * i) = PStr ''-object'')"
proof -
  let ?fl = "concat (map (\<lambda>p. [PStr ''-object'', p]) (record_paths loads lines))"
  have "parse_blobs loads lines [] = Inr ?fl"
    using parse_blobs_records[OF assms(1), of "[]"] by simp
  moreover have "map (\<lambda>i. ?fl ! (2 * i + 1)) [0..<M] = record_paths loads lines"
    using marked_paths[of "PStr ''-object''" "record_paths loads lines"] assms(2) by simp
  moreover have "\<forall>i<M. ?fl ! (2 * i) = PStr ''-object''"
    using marked_nth[of _ "record_paths loads lines" "PStr ''-object''"] assms(2) by simp
  ultimately show ?thesis by blast
qed

theorem records_give_marked_entries_witness:
  "parse_blobs demo_loads [msg_test_bin1, msg_lib, msg_test_bin2, msg_finished] []
     = Inr [PStr ''-object'', PStr ''bin1'', PStr ''-object'', PStr ''bin2'']
   \<and> record_paths demo_loads [msg_test_bin1, msg_lib, msg_test_bin2, msg_finished]
     = [PStr ''bin1'', PStr ''bin2'']"
  using records_give_marked_entries[where loads = demo_loads
      and lines = "[msg_test_bin1, msg_lib, msg_test_bin2, msg_finished]" and M = 2]
  by (simp add: msg_defs parse_defs)

text \<open>
  C5 as stated fails when the stream holds, beside its one well-formed record, a line
  that does not decode or a test-profile record with two paths: the loop ends with an
  exception and produces no list.
\<close>

theorem records_beside_bad_line_counterexample:
  "record_paths demo_loads [msg_test_bin1, ''not json''] = [PStr ''bin1'']
   \<and> parse_blobs demo_loads [msg_test_bin1, ''not json''] [] = Inl JSONDecodeError
   \<and> record_paths demo_loads [msg_test_bin1, msg_two_paths] = [PStr ''bin1'']
   \<and> parse_blobs demo_loads [msg_test_bin1, msg_two_paths] [] = Inl AssertionError"
  by (simp add: msg_defs parse_defs)

text \<open>
  C4. A decoded message whose \<^verbatim>\<open>profile.test\<close> is true and whose \<^verbatim>\<open>filenames\<close> has a
  length other than one fails the \<^verbatim>\<open>assert\<close>: the \<^verbatim>\<open>AssertionError\<close> is not caught. A
  captured output with such a line ends the stage with an exception and leaves the
  state as it was when the output was captured, so nothing is globbed, opened or
  exported; the exception is the \<^verbatim>\<open>AssertionError\<close> when the lines before went through.
\<close>

theorem bad_path_count_is_fatal:
  assumes "w_loads w blob = Inr data"
    and "getitem data ''profile'' = Inr p" and "getitem p ''test'' = Inr t" and "truthy t"
    and "getitem data ''filenames'' = Inr fs" and "py_len fs = Inr n" and "n \<noteq> 1"
    and "splitlines out = pre @ blob # post"
  shows "handle_blob data fl = Inl AssertionError
       \<and> (\<exists>e. process_blobs w sess (RStr out) s = (Inl e, s))
       \<and> (\<forall>fl0. parse_blobs (w_loads w) pre [] = Inr fl0
             \<longrightarrow> process_blobs w sess (RStr out) s = (Inl AssertionError, s))
       \<and> (\<forall>s0. capture_blobs w s0 = (Inr (RStr out), s)
             \<longrightarrow> (\<exists>e. coverage_body w sess s0 = (Inl e, s)))"
proof -
  have bad: "handle_blob data f = Inl AssertionError" for f
    using assms(2-7) by (rule handle_blob_bad_len)
  have ne: "out \<noteq> []" using assms(8) by (rule splitlines_nonempty)
  from assms(1) bad obtain e where e: "parse_blobs (w_loads w) (pre @ blob # post) [] = Inl e"
    using parse_blobs_abort[of "w_loads w" blob data AssertionError pre post "[]"] by blast
  have pb: "process_blobs w sess (RStr out) s = (Inl e, s)"
    using ne e assms(8) by (simp add: process_blobs_def)
  have at: "process_blobs w sess (RStr out) s = (Inl AssertionError, s)"
    if "parse_blobs (w_loads w) pre [] = Inr fl0" for fl0
    using parse_blobs_abort_at[OF assms(1) bad that, of post] ne assms(8)
    by (simp add: process_blobs_def)
  have cb: "\<exists>e. coverage_body w sess s0 = (Inl e, s)"
    if "capture_blobs w s0 = (Inr (RStr out), s)" for s0
    using that pb by (auto simp: coverage_body_def bindP_def)
  from bad pb at cb show ?thesis by blast
qed

theorem bad_path_count_is_fatal_witness:
  "handle_blob (artifact True [PStr ''x'', PStr ''y'']) [] = Inl AssertionError
   \<and> process_blobs (demo_world [] RNone (\<lambda>argv. False)) demo_session
        (RStr (msg_test_bin1 @ [CHR 0x0A] @ msg_two_paths @ [CHR 0x0A])) demo_state
       = (Inl AssertionError, demo_state)"
  using bad_path_count_is_fatal[where w = "demo_world [] RNone (\<lambda>argv. False)"
      and blob = msg_two_paths and data = "artifact True [PStr ''x'', PStr ''y'']"
      and p = "PDict [(''test'', PBool True)]" and t = "PBool True"
      and fs = "PList [PStr ''x'', PStr ''y'']" and n = 2
      and out = "msg_test_bin1 @ [CHR 0x0A] @ msg_two_paths @ [CHR 0x0A]"
      and pre = "[msg_test_bin1]" and post = "[]" and fl = "[]" and sess = demo_session
      and s = demo_state]
  by (simp add: msg_defs parse_defs run_defs)

section \<open>Sessions: what is kept and what is emitted\<close>

lemma bindP_assoc: "bindP (bindP m f) g = bindP m (\<lambda>x. bindP (f x) g)"
  by (auto simp: bindP_def fun_eq_iff split: prod.splits sum.splits)

lemma thenP_assoc: "thenP (thenP a b) c = thenP a (thenP b c)"
  by (simp add: thenP_def bindP_assoc)

lemma keeps_returnP: "keeps f (returnP x)"
  by (simp add: keeps_def returnP_def)

lemma keeps_raiseP: "keeps f (raiseP e)"
  by (simp add: keeps_def raiseP_def)

lemma keeps_bindP:
  assumes "keeps f m" and "\<And>x. keeps f (k x)"
  shows "keeps f (bindP m k)"
  unfolding keeps_def
proof
  fix s
  obtain r s1 where ms: "m s = (r, s1)" by (cases "m s")
  with assms(1) have f1: "f s1 = f s" by (auto simp: keeps_def dest: spec[of _ s])
  show "f (snd (bindP m k s)) = f s"
  proof (cases r)
    case (Inl e)
    with ms f1 show ?thesis by (simp add: bindP_def)
  next
    case (Inr x)
    from assms(2)[of x] have "f (snd (k x s1)) = f s1" by (simp add: keeps_def)
    with ms f1 Inr show ?thesis by (simp add: bindP_def)
  qed
qed

lemma keeps_thenP: "keeps f m \<Longrightarrow> keeps f n \<Longrightarrow> keeps f (thenP m n)"
  by (simp add: thenP_def keeps_bindP)

lemma keeps_session_run:
  "keeps st_cwd (session_run w argv silent out)" "keeps st_open (session_run w argv silent out)"
  by (simp_all add: keeps_def session_run_def emit_def Let_def)

lemma keeps_install:
  "keeps st_cwd (install w args)" "keeps st_open (install w args)"
  by (simp_all add: keeps_def install_def session_install_def emit_def Let_def)

lemma keeps_glob_glob:
  "keeps st_cwd (glob_glob w pat r)" "keeps st_open (glob_glob w pat r)"
  by (simp_all add: keeps_def glob_glob_def emit_def Let_def)

lemma keeps_env_update:
  "keeps st_cwd (env_update kvs)" "keeps st_open (env_update kvs)" "keeps st_trace (env_update kvs)"
  by (simp_all add: keeps_def env_update_def)

text \<open>The directory is put back whatever the body does and however it ends.\<close>

lemma keeps_cwd_with_chdir: "keeps st_cwd (with_chdir w d body)"
  by (simp add: keeps_def with_chdir_def emit_def Let_def case_prod_beta split: option.splits)

lemma keeps_open_with_chdir:
  assumes "keeps st_open body"
  shows "keeps st_open (with_chdir w d body)"
  unfolding keeps_def
proof
  fix s
  show "st_open (snd (with_chdir w d body s)) = st_open s"
  proof (cases "w_sys w (st_trace s) (Chdir d)")
    case (Some e)
    then show ?thesis by (simp add: with_chdir_def)
  next
    case None
    let ?s1 = "(emit (Chdir d) s)\<lparr>st_cwd := path_join (st_cwd s) d\<rparr>"
    from assms have "st_open (snd (body ?s1)) = st_open ?s1" by (simp add: keeps_def)
    with None show ?thesis
      by (simp add: with_chdir_def emit_def Let_def case_prod_beta)
  qed
qed

lemma keeps_cwd_with_open:
  assumes "keeps st_cwd body"
  shows "keeps st_cwd (with_open w path mode body)"
  unfolding keeps_def
proof
  fix s
  show "st_cwd (snd (with_open w path mode body s)) = st_cwd s"
  proof (cases "w_sys w (st_trace s) (Open path mode)")
    case (Some e)
    then show ?thesis by (simp add: with_open_def)
  next
    case None
    let ?s1 = "(emit (Open path mode) s)\<lparr>st_open := path # st_open s\<rparr>"
    from assms have "st_cwd (snd (body ?s1)) = st_cwd ?s1" by (simp add: keeps_def)
    with None show ?thesis
      by (simp add: with_open_def emit_def Let_def case_prod_beta)
  qed
qed

text \<open>The handle opened by \<^verbatim>\<open>with open\<close> is gone when the block is left.\<close>

lemma keeps_open_with_open:
  assumes "keeps st_open body"
  shows "keeps st_open (with_open w path mode body)"
  unfolding keeps_def
proof
  fix s
  show "st_open (snd (with_open w path mode body s)) = st_open s"
  proof (cases "w_sys w (st_trace s) (Open path mode)")
    case (Some e)
    then show ?thesis by (simp add: with_open_def)
  next
    case None
    let ?s1 = "(emit (Open path mode) s)\<lparr>st_open := path # st_open s\<rparr>"
    from assms have "st_open (snd (body ?s1)) = st_open ?s1" by (simp add: keeps_def)
    with None show ?thesis
      by (simp add: with_open_def emit_def Let_def case_prod_beta)
  qed
qed

lemma keeps_tests: "keeps st_cwd (tests w sess)" "keeps st_open (tests w sess)"
  by (simp_all add: tests_def keeps_thenP keeps_install keeps_session_run keeps_returnP)

lemma keeps_export_report:
  "keeps st_cwd (export_report w sess fl)" "keeps st_open (export_report w sess fl)"
  by (simp_all add: export_report_def keeps_bindP keeps_thenP keeps_glob_glob keeps_session_run
      keeps_returnP keeps_cwd_with_open keeps_open_with_open)

lemma keeps_process_blobs:
  "keeps st_cwd (process_blobs w sess jb)" "keeps st_open (process_blobs w sess jb)"
  using keeps_export_report[of w sess]
  by (auto simp: keeps_def process_blobs_def returnP_def raiseP_def
      split: run_return.splits sum.splits)

lemma keeps_capture_blobs:
  "keeps st_cwd (capture_blobs w)" "keeps st_open (capture_blobs w)"
  by (simp_all add: capture_blobs_def merge_profiles_def keeps_bindP keeps_thenP keeps_glob_glob
      keeps_session_run)

lemma keeps_coverage_body:
  "keeps st_cwd (coverage_body w sess)" "keeps st_open (coverage_body w sess)"
  by (simp_all add: coverage_body_def keeps_bindP keeps_capture_blobs keeps_process_blobs)

lemma keeps_rust_coverage:
  "keeps st_cwd (rust_coverage w sess)" "keeps st_open (rust_coverage w sess)"
  by (simp_all add: rust_coverage_def keeps_thenP keeps_env_update keeps_tests
      keeps_cwd_with_chdir keeps_open_with_chdir keeps_coverage_body)

lemma keeps_rust: "keeps st_cwd (rust w sess)" "keeps st_open (rust w sess)"
  by (simp_all add: rust_def keeps_thenP keeps_install keeps_cwd_with_chdir keeps_open_with_chdir
      keeps_session_run keeps_returnP)


lemma emits_returnP: "emits Q (returnP x)"
  by (simp add: emits_def returnP_def)

lemma emits_raiseP: "emits Q (raiseP e)"
  by (simp add: emits_def raiseP_def)

lemma emits_bindP:
  assumes "emits Q m" and "\<And>x. emits Q (k x)"
  shows "emits Q (bindP m k)"
  unfolding emits_def
proof
  fix s
  obtain r s1 where ms: "m s = (r, s1)" by (cases "m s")
  from assms(1) ms obtain es1 where env1: "st_env s1 = st_env s"
    and tr1: "st_trace s1 = st_trace s @ es1" and q1: "\<forall>ev\<in>set es1. Q (st_env s) ev"
    by (auto simp: emits_def dest: spec[of _ s])
  show "st_env (snd (bindP m k s)) = st_env s
        \<and> (\<exists>es. st_trace (snd (bindP m k s)) = st_trace s @ es \<and> (\<forall>ev\<in>set es. Q (st_env s) ev))"
  proof (cases r)
    case (Inl e)
    with ms env1 tr1 q1 show ?thesis by (simp add: bindP_def)
  next
    case (Inr x)
    from assms(2)[of x] obtain es2 where env2: "st_env (snd (k x s1)) = st_env s1"
      and tr2: "st_trace (snd (k x s1)) = st_trace s1 @ es2"
      and q2: "\<forall>ev\<in>set es2. Q (st_env s1) ev"
      by (auto simp: emits_def dest: spec[of _ s1])
    from tr1 tr2 have "st_trace (snd (k x s1)) = st_trace s @ (es1 @ es2)" by simp
    moreover from q1 q2 env1 have "\<forall>ev\<in>set (es1 @ es2). Q (st_env s) ev" by auto
    ultimately show ?thesis using ms Inr env1 env2 by (auto simp: bindP_def)
  qed
qed

lemma emits_thenP: "emits Q m \<Longrightarrow> emits Q n \<Longrightarrow> emits Q (thenP m n)"
  by (simp add: thenP_def emits_bindP)

lemma emits_session_run:
  "(\<And>env. Q env (Run argv env silent out)) \<Longrightarrow> emits Q (session_run w argv silent out)"
  by (simp add: emits_def session_run_def emit_def Let_def)

lemma emits_install:
  "(\<And>env a. Q env (Install a env)) \<Longrightarrow> emits Q (install w args)"
  by (simp add: emits_def install_def session_install_def emit_def Let_def)

lemma emits_glob_glob:
  "(\<And>env. Q env (Glob pat r)) \<Longrightarrow> emits Q (glob_glob w pat r)"
  by (simp add: emits_def glob_glob_def emit_def Let_def)

lemma emits_with_chdir:
  assumes "emits Q body" and "\<And>env d'. Q env (Chdir d')"
  shows "emits Q (with_chdir w d body)"
  unfolding emits_def
proof
  fix s
  show "st_env (snd (with_chdir w d body s)) = st_env s
        \<and> (\<exists>es. st_trace (snd (with_chdir w d body s)) = st_trace s @ es
                \<and> (\<forall>ev\<in>set es. Q (st_env s) ev))"
  proof (cases "w_sys w (st_trace s) (Chdir d)")
    case (Some e)
    then show ?thesis by (simp add: with_chdir_def)
  next
    case None
    let ?s1 = "(emit (Chdir d) s)\<lparr>st_cwd := path_join (st_cwd s) d\<rparr>"
    from assms(1) obtain es where env: "st_env (snd (body ?s1)) = st_env ?s1"
      and tr: "st_trace (snd (body ?s1)) = st_trace ?s1 @ es"
      and q: "\<forall>ev\<in>set es. Q (st_env ?s1) ev"
      by (auto simp: emits_def dest: spec[of _ ?s1])
    have "st_trace (snd (with_chdir w d body s)) = st_trace s @ (Chdir d # es @ [Chdir (st_cwd s)])"
      using None tr by (simp add: with_chdir_def emit_def Let_def case_prod_beta)
    moreover have "\<forall>ev\<in>set (Chdir d # es @ [Chdir (st_cwd s)]). Q (st_env s) ev"
      using q assms(2) by (auto simp: emit_def)
    moreover have "st_env (snd (with_chdir w d body s)) = st_env s"
      using None env by (simp add: with_chdir_def emit_def Let_def case_prod_beta)
    ultimately show ?thesis by blast
  qed
qed

lemma emits_with_open:
  assumes "emits Q body" and "\<And>env. Q env (Open path mode)" and "\<And>env. Q env (Close path)"
  shows "emits Q (with_open w path mode body)"
  unfolding emits_def
proof
  fix s
  show "st_env (snd (with_open w path mode body s)) = st_env s
        \<and> (\<exists>es. st_trace (snd (with_open w path mode body s)) = st_trace s @ es
                \<and> (\<forall>ev\<in>set es. Q (st_env s) ev))"
  proof (cases "w_sys w (st_trace s) (Open path mode)")
    case (Some e)
    then show ?thesis by (simp add: with_open_def)
  next
    case None
    let ?s1 = "(emit (Open path mode) s)\<lparr>st_open := path # st_open s\<rparr>"
    from assms(1) obtain es where env: "st_env (snd (body ?s1)) = st_env ?s1"
      and tr: "st_trace (snd (body ?s1)) = st_trace ?s1 @ es"
      and q: "\<forall>ev\<in>set es. Q (st_env ?s1) ev"
      by (auto simp: emits_def dest: spec[of _ ?s1])
    have "st_trace (snd (with_open w path mode body s)) = st_trace s @ (Open path mode # es @ [Close path])"
      using None tr by (simp add: with_open_def emit_def Let_def case_prod_beta)
    moreover have "\<forall>ev\<in>set (Open path mode # es @ [Close path]). Q (st_env s) ev"
      using q assms(2,3) by (auto simp: emit_def)
    moreover have "st_env (snd (with_open w path mode body s)) = st_env s"
      using None env by (simp add: with_open_def emit_def Let_def case_prod_beta)
    ultimately show ?thesis by blast
  qed
qed

lemma emits_tests:
  assumes "\<And>env a. Q env (Install a env)" and "\<And>env a si out. Q env (Run a env si out)"
  shows "emits Q (tests w sess)"
  unfolding tests_def
  by (intro emits_thenP emits_install emits_session_run emits_returnP assms)

lemma emits_capture_blobs:
  assumes "\<And>env a si out. Q env (Run a env si out)" and "\<And>env p r. Q env (Glob p r)"
  shows "emits Q (capture_blobs w)"
  unfolding capture_blobs_def merge_profiles_def
  by (intro emits_thenP emits_bindP emits_glob_glob emits_session_run assms)

lemma emits_export_report:
  assumes "\<And>env a si out. Q env (Run a env si out)" and "\<And>env p r. Q env (Glob p r)"
    and "\<And>env. Q env (Open report_path ''wb'')" and "\<And>env. Q env (Close report_path)"
  shows "emits Q (export_report w sess fl)"
  unfolding export_report_def
  by (intro emits_thenP emits_bindP emits_glob_glob emits_session_run emits_with_open
      emits_returnP assms)

lemma emits_process_blobs:
  assumes "\<And>env a si out. Q env (Run a env si out)" and "\<And>env p r. Q env (Glob p r)"
    and "\<And>env. Q env (Open report_path ''wb'')" and "\<And>env. Q env (Close report_path)"
  shows "emits Q (process_blobs w sess jb)"
proof -
  have ex: "emits Q (export_report w sess fl)" for fl
    using assms by (rule emits_export_report)
  show ?thesis
    unfolding emits_def
  proof
    fix s
    show "st_env (snd (process_blobs w sess jb s)) = st_env s
        \<and> (\<exists>es. st_trace (snd (process_blobs w sess jb s)) = st_trace s @ es
                \<and> (\<forall>ev\<in>set es. Q (st_env s) ev))"
      using ex
      by (auto simp: emits_def process_blobs_def returnP_def raiseP_def
          split: run_return.splits sum.splits)
  qed
qed

lemma emits_coverage_body:
  assumes "\<And>env a si out. Q env (Run a env si out)" and "\<And>env p r. Q env (Glob p r)"
    and "\<And>env. Q env (Open report_path ''wb'')" and "\<And>env. Q env (Close report_path)"
  shows "emits Q (coverage_body w sess)"
  unfolding coverage_body_def
  by (intro emits_bindP emits_capture_blobs emits_process_blobs assms)


lemma with_chdir_trace:
  assumes "emits Q body"
  shows "\<exists>es. st_trace (snd (with_chdir w d body s)) = st_trace s @ es
            \<and> (es = [] \<or> (\<exists>bs. es = Chdir d # bs @ [Chdir (st_cwd s)] \<and> (\<forall>ev\<in>set bs. Q (st_env s) ev)))"
proof (cases "w_sys w (st_trace s) (Chdir d)")
  case (Some e)
  then show ?thesis by (simp add: with_chdir_def)
next
  case None
  let ?s1 = "(emit (Chdir d) s)\<lparr>st_cwd := path_join (st_cwd s) d\<rparr>"
  from assms obtain bs where tr: "st_trace (snd (body ?s1)) = st_trace ?s1 @ bs"
    and q: "\<forall>ev\<in>set bs. Q (st_env ?s1) ev"
    by (auto simp: emits_def dest: spec[of _ ?s1])
  have "st_trace (snd (with_chdir w d body s)) = st_trace s @ (Chdir d # bs @ [Chdir (st_cwd s)])"
    using None tr by (simp add: with_chdir_def emit_def Let_def case_prod_beta)
  moreover have "\<forall>ev\<in>set bs. Q (st_env s) ev" using q by (simp add: emit_def)
  ultimately show ?thesis by blast
qed

lemma chdir_block_trace:
  assumes m: "emits (\<lambda>env ev. \<not> is_chdir_event ev) m" and mk: "keeps st_cwd m"
    and b: "emits (\<lambda>env ev. \<not> is_chdir_event ev) body"
  shows "\<exists>es. st_trace (snd (thenP m (with_chdir w d body) s)) = st_trace s @ es
            \<and> (filter is_chdir_event es = []
                \<or> filter is_chdir_event es = [Chdir d, Chdir (st_cwd s)])"
proof -
  obtain r s1 where ms: "m s = (r, s1)" by (cases "m s")
  from m ms obtain es1 where tr1: "st_trace s1 = st_trace s @ es1"
    and q1: "\<forall>ev\<in>set es1. \<not> is_chdir_event ev"
    by (auto simp: emits_def dest: spec[of _ s])
  from q1 have f1: "filter is_chdir_event es1 = []" by (simp add: filter_empty_conv)
  from mk ms have cwd1: "st_cwd s1 = st_cwd s" by (auto simp: keeps_def dest: spec[of _ s])
  show ?thesis
  proof (cases r)
    case (Inl e)
    with ms tr1 f1 show ?thesis by (auto simp: thenP_def bindP_def)
  next
    case (Inr x)
    from with_chdir_trace[OF b, of w d s1] obtain es2
      where tr2: "st_trace (snd (with_chdir w d body s1)) = st_trace s1 @ es2"
        and sh: "es2 = [] \<or> (\<exists>bs. es2 = Chdir d # bs @ [Chdir (st_cwd s1)] \<and> (\<forall>ev\<in>set bs. \<not> is_chdir_event ev))"
      by blast
    from sh cwd1 have f2: "filter is_chdir_event es2 = [] \<or> filter is_chdir_event es2 = [Chdir d, Chdir (st_cwd s)]"
      by (auto simp: filter_empty_conv)
    have "st_trace (snd (thenP m (with_chdir w d body) s)) = st_trace s @ (es1 @ es2)"
      using ms Inr tr1 tr2 by (simp add: thenP_def bindP_def)
    moreover have "filter is_chdir_event (es1 @ es2) = [] \<or> filter is_chdir_event (es1 @ es2) = [Chdir d, Chdir (st_cwd s)]"
      using f1 f2 by simp
    ultimately show ?thesis by blast
  qed
qed

lemma rust_chdir_events:
  "\<exists>es. st_trace (snd (rust w sess s)) = st_trace s @ es
       \<and> (filter is_chdir_event es = []
           \<or> filter is_chdir_event es = [Chdir ''src/rust/'', Chdir (st_cwd s)])"
  unfolding rust_def
  by (intro chdir_block_trace emits_install keeps_install emits_thenP emits_session_run
      emits_returnP) simp_all

lemma rust_coverage_chdir_events:
  "\<exists>es. st_trace (snd (rust_coverage w sess s)) = st_trace s @ es
       \<and> (filter is_chdir_event es = []
           \<or> filter is_chdir_event es = [Chdir ''src/rust/'', Chdir (st_cwd s)])"
proof -
  let ?s' = "s\<lparr>st_env := foldl (\<lambda>env kv. AList.update (fst kv) (snd kv) env) (st_env s) coverage_env\<rparr>"
  have eq: "rust_coverage w sess s = thenP (tests w sess) (with_chdir w ''src/rust/'' (coverage_body w sess)) ?s'"
    by (simp add: rust_coverage_def thenP_def bindP_def env_update_def)
  have "\<exists>es. st_trace (snd (thenP (tests w sess) (with_chdir w ''src/rust/'' (coverage_body w sess)) ?s')) = st_trace ?s' @ es
       \<and> (filter is_chdir_event es = []
           \<or> filter is_chdir_event es = [Chdir ''src/rust/'', Chdir (st_cwd ?s')])"
    by (intro chdir_block_trace emits_tests keeps_tests emits_coverage_body) simp_all
  with eq show ?thesis by simp
qed

lemma install_then_trace:
  assumes "emits Q n"
  shows "\<exists>es. st_trace (snd (thenP (install w args) n s))
              = st_trace s @ Install ([''-v'', ''-c'', ''ci-constraints-requirements.txt''] @ args) (st_env s) # es
            \<and> (\<forall>ev\<in>set es. Q (st_env s) ev)
            \<and> st_env (snd (thenP (install w args) n s)) = st_env s"
proof -
  let ?ev = "Install ([''-v'', ''-c'', ''ci-constraints-requirements.txt''] @ args) (st_env s)"
  show ?thesis
  proof (cases "w_run w (st_trace s) ?ev")
    case (Inl e)
    then show ?thesis
      by (simp add: thenP_def bindP_def install_def session_install_def emit_def Let_def)
  next
    case (Inr r)
    from assms obtain es where "st_env (snd (n (emit ?ev s))) = st_env (emit ?ev s)"
      and "st_trace (snd (n (emit ?ev s))) = st_trace (emit ?ev s) @ es"
      and "\<forall>ev\<in>set es. Q (st_env (emit ?ev s)) ev"
      by (auto simp: emits_def dest: spec[of _ "emit ?ev s"])
    with Inr show ?thesis
      by (simp add: thenP_def bindP_def install_def session_install_def emit_def Let_def)
  qed
qed

lemma rust_coverage_after_env:
  "rust_coverage w sess s =
     thenP (tests w sess) (with_chdir w ''src/rust/'' (coverage_body w sess))
       (s\<lparr>st_env := AList.update ''LLVM_PROFILE_FILE'' ''rust-cov/cov-%p.profraw''
                       (AList.update ''RUSTFLAGS'' ''-Cinstrument-coverage'' (st_env s))\<rparr>)"
  by (simp add: rust_coverage_def thenP_def bindP_def env_update_def coverage_env_def)

lemma emits_chdir_coverage_body:
  assumes "\<And>env a si out. Q env (Run a env si out)" and "\<And>env p r. Q env (Glob p r)"
    and "\<And>env. Q env (Open report_path ''wb'')" and "\<And>env. Q env (Close report_path)"
    and "\<And>env d. Q env (Chdir d)"
  shows "emits Q (with_chdir w ''src/rust/'' (coverage_body w sess))"
  by (intro emits_with_chdir emits_coverage_body assms)

lemma rust_coverage_trace:
  assumes "\<And>env a. Q env (Install a env)"
    and "\<And>env a si out. Q env (Run a env si out)" and "\<And>env p r. Q env (Glob p r)"
    and "\<And>env. Q env (Open report_path ''wb'')" and "\<And>env. Q env (Close report_path)"
    and "\<And>env d. Q env (Chdir d)"
    and "env' = AList.update ''LLVM_PROFILE_FILE'' ''rust-cov/cov-%p.profraw''
                       (AList.update ''RUSTFLAGS'' ''-Cinstrument-coverage'' (st_env s))"
  shows "\<exists>es. st_trace (snd (rust_coverage w sess s))
              = st_trace s @ Install [''-v'', ''-c'', ''ci-constraints-requirements.txt'', ''.['' @ extras sess @ '']''] env' # es
            \<and> (\<forall>ev\<in>set es. Q env' ev)
            \<and> st_env (snd (rust_coverage w sess s)) = env'"
proof -
  let ?s' = "s\<lparr>st_env := env'\<rparr>"
  let ?n = "thenP (thenP (install w [''-e'', ''./vectors''])
             (thenP (session_run w (map PStr [''pip'', ''list'']) False None)
             (thenP (session_run w
                (map PStr ([''pytest'', ''-n'', ''auto'', ''--dist=worksteal''] @ cov_args sess
                   @ [''--durations=10''] @ s_posargs sess @ [''tests/'']))
                False None)
               (returnP ()))))
             (with_chdir w ''src/rust/'' (coverage_body w sess))"
  have n: "emits Q ?n"
    by (intro emits_thenP emits_install emits_session_run emits_returnP
        emits_chdir_coverage_body assms(1-6))
  have eq: "rust_coverage w sess s = thenP (install w [''.['' @ extras sess @ '']'']) ?n ?s'"
    by (simp add: rust_coverage_after_env tests_def thenP_assoc assms(7))
  from install_then_trace[OF n, of w "[''.['' @ extras sess @ '']'']" ?s'] eq
  show ?thesis by simp
qed

lemma export_report_trace:
  assumes "w_sys w (st_trace s @ [Glob (rust_so_pattern sess) False]) (Open report_path ''wb'') = None"
  shows "st_trace (snd (export_report w sess fl s))
           = st_trace s @ [Glob (rust_so_pattern sess) False, Open report_path ''wb'',
               Run (export_argv (w_glob w (st_trace s) (Glob (rust_so_pattern sess) False)) fl)
                   (st_env s) False (Some report_path),
               Close report_path]"
  using assms
  by (simp add: export_report_def bindP_def thenP_def returnP_def glob_glob_def with_open_def
      session_run_def emit_def Let_def case_prod_beta split: sum.splits)

lemma export_report_result:
  assumes "w_sys w (st_trace s @ [Glob (rust_so_pattern sess) False]) (Open report_path ''wb'') = None"
  shows "fst (export_report w sess fl s)
           = (case w_run w (st_trace s @ [Glob (rust_so_pattern sess) False, Open report_path ''wb''])
                   (Run (export_argv (w_glob w (st_trace s) (Glob (rust_so_pattern sess) False)) fl)
                        (st_env s) False (Some report_path)) of
                Inl e \<Rightarrow> Inl e | Inr r \<Rightarrow> Inr ())"
  using assms
  by (simp add: export_report_def bindP_def thenP_def returnP_def glob_glob_def with_open_def
      session_run_def emit_def Let_def case_prod_beta split: sum.splits)

lemma rust_coverage_opens:
  "\<exists>es. st_trace (snd (rust_coverage w sess s)) = st_trace s @ es
         \<and> (\<forall>ev\<in>set es. is_open_event ev \<longrightarrow> ev = Open ''../../cov.lcov'' ''wb'')"
proof -
  define env' where "env' = AList.update ''LLVM_PROFILE_FILE'' ''rust-cov/cov-%p.profraw''
                       (AList.update ''RUSTFLAGS'' ''-Cinstrument-coverage'' (st_env s))"
  let ?Q = "\<lambda>env ev. is_open_event ev \<longrightarrow> ev = Open ''../../cov.lcov'' ''wb''"
  let ?i = "Install [''-v'', ''-c'', ''ci-constraints-requirements.txt'', ''.['' @ extras sess @ '']''] env'"
  have "\<exists>es. st_trace (snd (rust_coverage w sess s)) = st_trace s @ ?i # es
            \<and> (\<forall>ev\<in>set es. ?Q env' ev)
            \<and> st_env (snd (rust_coverage w sess s)) = env'"
    by (rule rust_coverage_trace[where Q = ?Q]) (simp_all add: report_path_def env'_def)
  then obtain es where a: "st_trace (snd (rust_coverage w sess s)) = st_trace s @ ?i # es"
    and b: "\<forall>ev\<in>set es. ?Q env' ev"
    by blast
  from b have "\<forall>ev\<in>set (?i # es). ?Q env' ev" by simp
  with a show ?thesis by blast
qed

lemma capture_blobs_success:
  assumes "capture_blobs w s0 = (Inr jb, s)"
  shows "\<exists>paths. st_trace s = st_trace s0 @
           [Run (map PStr [''cargo'', ''test'', ''--no-default-features'']) (st_env s0) False None,
            Glob ''**/*.profraw'' True,
            Run (merge_argv paths) (st_env s0) False None,
            Run json_argv (st_env s0) True None]"
  using assms
  by (auto simp: capture_blobs_def merge_profiles_def thenP_def bindP_def session_run_def
      glob_glob_def emit_def Let_def split: sum.splits)

lemma capture_blobs_no_loads: "capture_blobs (w\<lparr>w_loads := loads'\<rparr>) = capture_blobs w"
  by (simp add: capture_blobs_def merge_profiles_def session_run_def glob_glob_def fun_eq_iff)

lemma process_blobs_empty:
  "json_blobs = RNone \<or> json_blobs = RStr [] \<Longrightarrow> process_blobs w sess json_blobs s = (Inr (), s)"
  by (auto simp: process_blobs_def returnP_def)

lemma export_report_grows:
  "\<exists>es. st_trace (snd (export_report w sess fl s)) = st_trace s @ Glob (rust_so_pattern sess) False # es"
  by (simp add: export_report_def bindP_def thenP_def returnP_def glob_glob_def with_open_def
      session_run_def emit_def Let_def case_prod_beta split: sum.splits option.splits)

lemma export_report_not_skip: "export_report w sess fl s \<noteq> (r, s)"
proof
  assume "export_report w sess fl s = (r, s)"
  then have "st_trace (snd (export_report w sess fl s)) = st_trace s" by simp
  with export_report_grows[of w sess fl s] show False by auto
qed

lemma process_blobs_parsed:
  assumes "out \<noteq> []" and "parse_blobs (w_loads w) (splitlines out) [] = Inr fl"
  shows "process_blobs w sess (RStr out) s = export_report w sess fl s"
  using assms by (simp add: process_blobs_def)

lemma process_blobs_skip_iff:
  "(process_blobs w sess json_blobs s = (Inr (), s)) = (json_blobs = RNone \<or> json_blobs = RStr [])"
proof (cases json_blobs)
  case RNone
  then show ?thesis by (simp add: process_blobs_def returnP_def)
next
  case RTrue
  then show ?thesis by (simp add: process_blobs_def raiseP_def)
next
  case (RStr out)
  show ?thesis
  proof (cases "out = []")
    case True
    with RStr show ?thesis by (simp add: process_blobs_def returnP_def)
  next
    case False
    show ?thesis
    proof (cases "parse_blobs (w_loads w) (splitlines out) []")
      case (Inl e)
      with RStr False show ?thesis by (simp add: process_blobs_def)
    next
      case (Inr fl)
      with RStr False show ?thesis
        using export_report_not_skip[of w sess fl s "Inr ()"] by (simp add: process_blobs_def)
    qed
  qed
qed

section \<open>Properties of the sessions\<close>

text \<open>
  C6. The sessions \<^verbatim>\<open>rust\<close> and \<^verbatim>\<open>rust_coverage\<close> change the working directory only
  through \<^verbatim>\<open>with session.chdir("src/rust/")\<close>. In every world, whichever command fails
  or succeeds, the working directory at the end of the session is the one at its start;
  a \<^verbatim>\<open>with session.chdir\<close> block restores it whatever its body does; and the directory
  changes of a session are none at all or the change to \<^verbatim>\<open>src/rust/\<close> followed by the
  change back to the starting directory.
\<close>

theorem working_directory_restored:
  "st_cwd (snd (rust w sess s)) = st_cwd s
   \<and> st_cwd (snd (rust_coverage w sess s)) = st_cwd s
   \<and> st_cwd (snd (with_chdir w d body s)) = st_cwd s
   \<and> (\<exists>es. st_trace (snd (rust w sess s)) = st_trace s @ es
         \<and> filter is_chdir_event es \<in> {[], [Chdir ''src/rust/'', Chdir (st_cwd s)]})
   \<and> (\<exists>es. st_trace (snd (rust_coverage w sess s)) = st_trace s @ es
         \<and> filter is_chdir_event es \<in> {[], [Chdir ''src/rust/'', Chdir (st_cwd s)]})"
  using keeps_rust(1)[of w sess] keeps_rust_coverage(1)[of w sess] keeps_cwd_with_chdir[of w d body]
    rust_chdir_events[of w sess s] rust_coverage_chdir_events[of w sess s]
  by (simp add: keeps_def)

theorem working_directory_restored_witness:
  "fst (rust (demo_world [] RNone (\<lambda>argv. argv = map PStr [''cargo'', ''clippy'', ''--'', ''-D'', ''warnings'']))
          demo_session demo_state) = Inl CommandFailed
   \<and> st_cwd (snd (rust (demo_world [] RNone (\<lambda>argv. argv = map PStr [''cargo'', ''clippy'', ''--'', ''-D'', ''warnings'']))
          demo_session demo_state)) = ''/repo''
   \<and> st_cwd (snd (rust_coverage (demo_world [] RNone (\<lambda>argv. argv = merge_argv []))
          demo_session demo_state)) = ''/repo''"
proof -
  have failed: "fst (rust (demo_world [] RNone (\<lambda>argv. argv = map PStr [''cargo'', ''clippy'', ''--'', ''-D'', ''warnings'']))
          demo_session demo_state) = Inl CommandFailed"
    by (simp add: run_defs)
  have home: "st_cwd demo_state = ''/repo''" by (simp add: demo_state_def)
  from working_directory_restored[where w = "demo_world [] RNone (\<lambda>argv. argv = map PStr [''cargo'', ''clippy'', ''--'', ''-D'', ''warnings''])"
      and sess = demo_session and s = demo_state]
  have a: "st_cwd (snd (rust (demo_world [] RNone (\<lambda>argv. argv = map PStr [''cargo'', ''clippy'', ''--'', ''-D'', ''warnings'']))
          demo_session demo_state)) = st_cwd demo_state"
    by (rule conjunct1)
  from working_directory_restored[where w = "demo_world [] RNone (\<lambda>argv. argv = merge_argv [])"
      and sess = demo_session and s = demo_state]
  have b: "st_cwd (snd (rust_coverage (demo_world [] RNone (\<lambda>argv. argv = merge_argv []))
          demo_session demo_state)) = st_cwd demo_state"
    by blast
  from failed a b show ?thesis by (simp only: home)
qed


text \<open>
  C8. \<^verbatim>\<open>rust_coverage\<close> starts by setting two variables in the session environment,
  \<^verbatim>\<open>RUSTFLAGS\<close> to \<^verbatim>\<open>-Cinstrument-coverage\<close> and \<^verbatim>\<open>LLVM_PROFILE_FILE\<close> to a template
  with the process-identifier placeholder \<^verbatim>\<open>%p\<close>, and leaves every other variable as it
  was. The first action of the session, the first install of \<^verbatim>\<open>tests\<close>, already runs in
  that environment, and so does every later command of the session, the pytest run
  among them.
\<close>

theorem coverage_environment_set_first:
  "\<exists>env' es.
      st_trace (snd (rust_coverage w sess s))
        = st_trace s @ Install [''-v'', ''-c'', ''ci-constraints-requirements.txt'', ''.['' @ extras sess @ '']''] env' # es
      \<and> (\<forall>ev\<in>set es. event_env ev = None \<or> event_env ev = Some env')
      \<and> st_env (snd (rust_coverage w sess s)) = env'
      \<and> map_of env' = (map_of (st_env s))(''RUSTFLAGS'' \<mapsto> ''-Cinstrument-coverage'',
                           ''LLVM_PROFILE_FILE'' \<mapsto> ''rust-cov/cov-'' @ ''%p'' @ ''.profraw'')"
proof -
  define env' where "env' = AList.update ''LLVM_PROFILE_FILE'' ''rust-cov/cov-%p.profraw''
                       (AList.update ''RUSTFLAGS'' ''-Cinstrument-coverage'' (st_env s))"
  have m: "map_of env' = (map_of (st_env s))(''RUSTFLAGS'' \<mapsto> ''-Cinstrument-coverage'',
                           ''LLVM_PROFILE_FILE'' \<mapsto> ''rust-cov/cov-'' @ ''%p'' @ ''.profraw'')"
    by (simp add: env'_def update_conv')
  from rust_coverage_trace[where Q = "\<lambda>env ev. event_env ev = None \<or> event_env ev = Some env",
      OF _ _ _ _ _ _ env'_def, of w sess]
  obtain es where "st_trace (snd (rust_coverage w sess s))
        = st_trace s @ Install [''-v'', ''-c'', ''ci-constraints-requirements.txt'', ''.['' @ extras sess @ '']''] env' # es"
    and "\<forall>ev\<in>set es. event_env ev = None \<or> event_env ev = Some env'"
    and "st_env (snd (rust_coverage w sess s)) = env'"
    by auto
  with m show ?thesis by blast
qed


theorem coverage_environment_set_first_witness:
  "\<exists>env' es.
      st_trace (snd (rust_coverage (demo_world [] RNone (\<lambda>argv. False)) demo_session demo_state))
        = Install [''-v'', ''-c'', ''ci-constraints-requirements.txt'', ''.[test]''] env' # es
      \<and> map_of env' ''RUSTFLAGS'' = Some ''-Cinstrument-coverage''
      \<and> map_of env' ''LLVM_PROFILE_FILE'' = Some ''rust-cov/cov-%p.profraw''
      \<and> map_of env' ''PATH'' = Some ''/usr/bin''"
proof -
  from coverage_environment_set_first[of "demo_world [] RNone (\<lambda>argv. False)" demo_session demo_state]
  obtain env' es where
    tr: "st_trace (snd (rust_coverage (demo_world [] RNone (\<lambda>argv. False)) demo_session demo_state))
        = st_trace demo_state @ Install [''-v'', ''-c'', ''ci-constraints-requirements.txt'', ''.['' @ extras demo_session @ '']''] env' # es"
    and m: "map_of env' = (map_of (st_env demo_state))(''RUSTFLAGS'' \<mapsto> ''-Cinstrument-coverage'',
                           ''LLVM_PROFILE_FILE'' \<mapsto> ''rust-cov/cov-'' @ ''%p'' @ ''.profraw'')"
    by blast
  have e: "''.['' @ extras demo_session @ '']'' = ''.[test]''"
    by (simp add: extras_def demo_session_def)
  have t0: "st_trace demo_state = []" by (simp add: demo_state_def)
  from tr have tr': "st_trace (snd (rust_coverage (demo_world [] RNone (\<lambda>argv. False)) demo_session demo_state))
        = Install [''-v'', ''-c'', ''ci-constraints-requirements.txt'', ''.[test]''] env' # es"
    by (simp only: e t0 append_Nil)
  from m have "map_of env' ''RUSTFLAGS'' = Some ''-Cinstrument-coverage''"
    and "map_of env' ''LLVM_PROFILE_FILE'' = Some ''rust-cov/cov-%p.profraw''"
    and "map_of env' ''PATH'' = Some ''/usr/bin''"
    by (simp_all add: demo_state_def)
  with tr' show ?thesis by blast
qed

text \<open>
  C7. The only file a \<^verbatim>\<open>rust_coverage\<close> session opens is \<^verbatim>\<open>../../cov.lcov\<close>, in mode
  \<^verbatim>\<open>wb\<close>. When the \<^verbatim>\<open>open\<close> succeeds the export command runs with its standard output
  redirected to that handle and the handle is closed next, whether the command returned
  or raised; no handle is left open at the end of the export stage or of the session,
  in any world.
\<close>

theorem report_handle_closed:
  "st_open (snd (rust_coverage w sess s)) = st_open s
   \<and> st_open (snd (export_report w sess fl s)) = st_open s
   \<and> (\<exists>es. st_trace (snd (rust_coverage w sess s)) = st_trace s @ es
         \<and> (\<forall>ev\<in>set es. is_open_event ev \<longrightarrow> ev = Open ''../../cov.lcov'' ''wb''))
   \<and> (w_sys w (st_trace s @ [Glob (rust_so_pattern sess) False]) (Open ''../../cov.lcov'' ''wb'') = None
       \<longrightarrow> st_trace (snd (export_report w sess fl s))
           = st_trace s @ [Glob (rust_so_pattern sess) False, Open ''../../cov.lcov'' ''wb'',
               Run (export_argv (w_glob w (st_trace s) (Glob (rust_so_pattern sess) False)) fl)
                   (st_env s) False (Some ''../../cov.lcov''),
               Close ''../../cov.lcov''])"
proof (intro conjI impI)
  show "st_open (snd (rust_coverage w sess s)) = st_open s"
    using keeps_rust_coverage(2)[of w sess] by (simp add: keeps_def)
  show "st_open (snd (export_report w sess fl s)) = st_open s"
    using keeps_export_report(2)[of w sess fl] by (simp add: keeps_def)
  show "\<exists>es. st_trace (snd (rust_coverage w sess s)) = st_trace s @ es
         \<and> (\<forall>ev\<in>set es. is_open_event ev \<longrightarrow> ev = Open ''../../cov.lcov'' ''wb'')"
    by (rule rust_coverage_opens)
next
  assume "w_sys w (st_trace s @ [Glob (rust_so_pattern sess) False]) (Open ''../../cov.lcov'' ''wb'') = None"
  then show "st_trace (snd (export_report w sess fl s))
           = st_trace s @ [Glob (rust_so_pattern sess) False, Open ''../../cov.lcov'' ''wb'',
               Run (export_argv (w_glob w (st_trace s) (Glob (rust_so_pattern sess) False)) fl)
                   (st_env s) False (Some ''../../cov.lcov''),
               Close ''../../cov.lcov'']"
    using export_report_trace[of w s sess fl] by (simp add: report_path_def)
qed


theorem report_handle_closed_witness:
  "fst (rust_coverage
         (demo_world [''a.profraw''] (RStr msg_test_bin1)
            (\<lambda>argv. argv = export_argv [demo_so] [PStr ''-object'', PStr ''bin1'']))
         demo_session demo_state) = Inl CommandFailed
   \<and> st_open (snd (rust_coverage
         (demo_world [''a.profraw''] (RStr msg_test_bin1)
            (\<lambda>argv. argv = export_argv [demo_so] [PStr ''-object'', PStr ''bin1'']))
         demo_session demo_state)) = []
   \<and> drop 9 (st_trace (snd (rust_coverage
         (demo_world [''a.profraw''] (RStr msg_test_bin1)
            (\<lambda>argv. argv = export_argv [demo_so] [PStr ''-object'', PStr ''bin1'']))
         demo_session demo_state)))
      = [Glob ''/venv/lib/**/site-packages/cryptography/hazmat/bindings/_rust_abi3.so'' False,
         Open ''../../cov.lcov'' ''wb'',
         Run (export_argv [demo_so] [PStr ''-object'', PStr ''bin1''])
           [(''PATH'', ''/usr/bin''), (''RUSTFLAGS'', ''-Cinstrument-coverage''),
            (''LLVM_PROFILE_FILE'', ''rust-cov/cov-%p.profraw'')]
           False (Some ''../../cov.lcov''),
         Close ''../../cov.lcov'', Chdir ''/repo'']"
proof -
  let ?w = "demo_world [''a.profraw''] (RStr msg_test_bin1)
            (\<lambda>argv. argv = export_argv [demo_so] [PStr ''-object'', PStr ''bin1''])"
  have failed: "fst (rust_coverage ?w demo_session demo_state) = Inl CommandFailed"
    by (simp add: run_defs parse_defs msg_defs rust_so_pattern_def report_path_def
        merge_argv_def json_argv_def export_argv_def demo_so_def)
  have tail: "drop 9 (st_trace (snd (rust_coverage ?w demo_session demo_state)))
      = [Glob ''/venv/lib/**/site-packages/cryptography/hazmat/bindings/_rust_abi3.so'' False,
         Open ''../../cov.lcov'' ''wb'',
         Run (export_argv [demo_so] [PStr ''-object'', PStr ''bin1''])
           [(''PATH'', ''/usr/bin''), (''RUSTFLAGS'', ''-Cinstrument-coverage''),
            (''LLVM_PROFILE_FILE'', ''rust-cov/cov-%p.profraw'')]
           False (Some ''../../cov.lcov''),
         Close ''../../cov.lcov'', Chdir ''/repo'']"
    by (simp add: run_defs parse_defs msg_defs rust_so_pattern_def report_path_def
        merge_argv_def json_argv_def export_argv_def demo_so_def)
  have closed: "st_open (snd (rust_coverage ?w demo_session demo_state)) = st_open demo_state"
    using report_handle_closed[of ?w demo_session demo_state] by blast
  have "st_open demo_state = []" by (simp add: demo_state_def)
  with closed failed tail show ?thesis by (simp only:) 
qed


text \<open>
  C10. When the captured run returns \<^verbatim>\<open>None\<close> or the empty string, the \<^verbatim>\<open>if json_blobs:\<close>
  block is not entered: the body of the \<^verbatim>\<open>with\<close> block ends normally in the very state
  in which the captured run returned, whatever the decoder would do with a line. The
  trace of the body then ends with the captured run: no line is decoded, the shared
  object is not globbed, no file is opened and no export command is run.
\<close>

theorem empty_output_skips_downstream:
  assumes "capture_blobs w s0 = (Inr json_blobs, s)"
    and "json_blobs = RNone \<or> json_blobs = RStr []"
  shows "process_blobs w sess json_blobs s = (Inr (), s)
       \<and> coverage_body w sess s0 = (Inr (), s)
       \<and> coverage_body (w\<lparr>w_loads := loads'\<rparr>) sess s0 = (Inr (), s)
       \<and> (\<exists>paths. st_trace s = st_trace s0 @
             [Run (map PStr [''cargo'', ''test'', ''--no-default-features'']) (st_env s0) False None,
              Glob ''**/*.profraw'' True,
              Run (merge_argv paths) (st_env s0) False None,
              Run json_argv (st_env s0) True None])"
proof -
  have p: "process_blobs w' sess json_blobs s = (Inr (), s)" for w'
    using assms(2) by (rule process_blobs_empty)
  have a: "coverage_body w sess s0 = (Inr (), s)"
    using assms(1) p[of w] by (simp add: coverage_body_def bindP_def)
  have b: "coverage_body (w\<lparr>w_loads := loads'\<rparr>) sess s0 = (Inr (), s)"
    using assms(1) p[of "w\<lparr>w_loads := loads'\<rparr>"]
    by (simp add: coverage_body_def bindP_def capture_blobs_no_loads)
  from p[of w] a b capture_blobs_success[OF assms(1)] show ?thesis by blast
qed

theorem empty_output_skips_downstream_witness:
  "coverage_body (demo_world [''a.profraw''] (RStr []) (\<lambda>argv. False)) demo_session demo_state
     = (Inr (), snd (capture_blobs (demo_world [''a.profraw''] (RStr []) (\<lambda>argv. False)) demo_state))
   \<and> coverage_body (demo_world [''a.profraw''] RNone (\<lambda>argv. False)) demo_session demo_state
     = (Inr (), snd (capture_blobs (demo_world [''a.profraw''] RNone (\<lambda>argv. False)) demo_state))
   \<and> st_trace (snd (capture_blobs (demo_world [''a.profraw''] RNone (\<lambda>argv. False)) demo_state))
     = [Run (map PStr [''cargo'', ''test'', ''--no-default-features'']) [(''PATH'', ''/usr/bin'')] False None,
        Glob ''**/*.profraw'' True,
        Run (merge_argv [''a.profraw'']) [(''PATH'', ''/usr/bin'')] False None,
        Run json_argv [(''PATH'', ''/usr/bin'')] True None]"
proof -
  let ?w1 = "demo_world [''a.profraw''] (RStr []) (\<lambda>argv. False)"
  let ?w2 = "demo_world [''a.profraw''] RNone (\<lambda>argv. False)"
  have c1: "capture_blobs ?w1 demo_state = (Inr (RStr []), snd (capture_blobs ?w1 demo_state))"
    by (simp add: run_defs prod_eq_iff)
  have c2: "capture_blobs ?w2 demo_state = (Inr RNone, snd (capture_blobs ?w2 demo_state))"
    by (simp add: run_defs prod_eq_iff)
  have t: "st_trace (snd (capture_blobs ?w2 demo_state))
     = [Run (map PStr [''cargo'', ''test'', ''--no-default-features'']) [(''PATH'', ''/usr/bin'')] False None,
        Glob ''**/*.profraw'' True,
        Run (merge_argv [''a.profraw'']) [(''PATH'', ''/usr/bin'')] False None,
        Run json_argv [(''PATH'', ''/usr/bin'')] True None]"
    by (simp add: run_defs)
  from empty_output_skips_downstream[OF c1, of demo_session] empty_output_skips_downstream[OF c2, of demo_session] t
  show ?thesis by blast
qed

text \<open>
  C3, as the code has it. The stage after the captured run is skipped exactly when the
  captured output is \<^verbatim>\<open>None\<close> or empty. With a non-empty output whose lines go through the
  loop, the export runs with whatever list of references the loop built, the empty list
  included: the shared object is globbed, and when the \<^verbatim>\<open>open\<close> succeeds the report file
  is opened for writing and the export command is run with no \<^verbatim>\<open>-object\<close> argument.
\<close>

theorem export_skipped_iff_output_empty:
  "(process_blobs w sess json_blobs s = (Inr (), s)) = (json_blobs = RNone \<or> json_blobs = RStr [])
   \<and> (out \<noteq> [] \<and> parse_blobs (w_loads w) (splitlines out) [] = Inr fl
       \<longrightarrow> process_blobs w sess (RStr out) s = export_report w sess fl s)
   \<and> (\<exists>es. st_trace (snd (export_report w sess fl s))
              = st_trace s @ Glob (rust_so_pattern sess) False # es)
   \<and> (w_sys w (st_trace s @ [Glob (rust_so_pattern sess) False]) (Open ''../../cov.lcov'' ''wb'') = None
       \<longrightarrow> st_trace (snd (export_report w sess [] s))
           = st_trace s @ [Glob (rust_so_pattern sess) False, Open ''../../cov.lcov'' ''wb'',
               Run (export_argv (w_glob w (st_trace s) (Glob (rust_so_pattern sess) False)) [])
                   (st_env s) False (Some ''../../cov.lcov''),
               Close ''../../cov.lcov''])"
  using process_blobs_skip_iff[of w sess json_blobs s] process_blobs_parsed[of out w fl sess s]
    export_report_grows[of w sess fl s] export_report_trace[of w s sess "[]"]
  by (simp add: report_path_def)

theorem export_skipped_iff_output_empty_witness:
  "process_blobs (demo_world [] RNone (\<lambda>argv. False)) demo_session (RStr []) demo_state
     = (Inr (), demo_state)
   \<and> process_blobs (demo_world [] RNone (\<lambda>argv. False)) demo_session (RStr msg_lib) demo_state
     = export_report (demo_world [] RNone (\<lambda>argv. False)) demo_session [] demo_state
   \<and> st_trace (snd (export_report (demo_world [] RNone (\<lambda>argv. False)) demo_session [] demo_state))
     = [Glob ''/venv/lib/**/site-packages/cryptography/hazmat/bindings/_rust_abi3.so'' False,
        Open ''../../cov.lcov'' ''wb'',
        Run (export_argv [demo_so] []) [(''PATH'', ''/usr/bin'')] False (Some ''../../cov.lcov''),
        Close ''../../cov.lcov'']"
proof -
  let ?w = "demo_world [] RNone (\<lambda>argv. False)"
  have sys: "w_sys ?w h ev = None" for h ev by (simp add: demo_world_def)
  have gl: "w_glob ?w h (Glob pat False) = [demo_so]" for h pat by (simp add: demo_world_def)
  have ld: "w_loads ?w = demo_loads" by (simp add: demo_world_def)
  have pr: "parse_blobs demo_loads (splitlines msg_lib) [] = Inr []"
    by (simp add: msg_defs parse_defs splitlines_def is_linebreak_def)
  have ne: "msg_lib \<noteq> []" by (simp add: msg_lib_def)
  have pat: "rust_so_pattern demo_session
      = ''/venv/lib/**/site-packages/cryptography/hazmat/bindings/_rust_abi3.so''"
    by (simp add: rust_so_pattern_def demo_session_def)
  have st: "st_trace demo_state = []" "st_env demo_state = [(''PATH'', ''/usr/bin'')]"
    by (simp_all add: demo_state_def)
  note t = export_skipped_iff_output_empty[where w = ?w and sess = demo_session and s = demo_state
      and fl = "[]" and out = msg_lib]
  from t[where json_blobs = "RStr []"] have a: "process_blobs ?w demo_session (RStr []) demo_state = (Inr (), demo_state)"
    by simp
  from t[where json_blobs = RNone] ne pr ld
  have b: "process_blobs ?w demo_session (RStr msg_lib) demo_state = export_report ?w demo_session [] demo_state"
    by simp
  from t[where json_blobs = RNone] sys
  have c: "st_trace (snd (export_report ?w demo_session [] demo_state))
           = st_trace demo_state @ [Glob (rust_so_pattern demo_session) False, Open ''../../cov.lcov'' ''wb'',
               Run (export_argv (w_glob ?w (st_trace demo_state) (Glob (rust_so_pattern demo_session) False)) [])
                   (st_env demo_state) False (Some ''../../cov.lcov''),
               Close ''../../cov.lcov'']"
    by simp
  from a b c show ?thesis by (simp only: gl pat st append_Nil)
qed

text \<open>
  C3 as stated fails: the output holds one message that is not a test-profile record,
  the list of references is empty, and yet the report file is opened and the export
  command is run.
\<close>

theorem empty_references_still_export_counterexample:
  "parse_blobs demo_loads (splitlines msg_finished) [] = Inr []
   \<and> fst (rust_coverage (demo_world [''a.profraw''] (RStr msg_finished) (\<lambda>argv. False))
            demo_session demo_state) = Inr ()
   \<and> drop 9 (st_trace (snd (rust_coverage (demo_world [''a.profraw''] (RStr msg_finished) (\<lambda>argv. False))
            demo_session demo_state)))
      = [Glob ''/venv/lib/**/site-packages/cryptography/hazmat/bindings/_rust_abi3.so'' False,
         Open ''../../cov.lcov'' ''wb'',
         Run (export_argv [demo_so] [])
           [(''PATH'', ''/usr/bin''), (''RUSTFLAGS'', ''-Cinstrument-coverage''),
            (''LLVM_PROFILE_FILE'', ''rust-cov/cov-%p.profraw'')]
           False (Some ''../../cov.lcov''),
         Close ''../../cov.lcov'', Chdir ''/repo'']"
  by (simp add: run_defs parse_defs msg_defs rust_so_pattern_def report_path_def
        merge_argv_def json_argv_def)

text \<open>
  C1, as the code has it. Once the \<^verbatim>\<open>cargo test\<close> run of line 164 has succeeded, the merge
  command is run once with the globbed paths between \<^verbatim>\<open>-sparse\<close> and
  \<^verbatim>\<open>-o rust-cov.profdata\<close>, for every list of paths, the empty list included; what follows
  it in the stage is nothing (the merge failed, and its failure is the result of the
  stage) or the captured run.
\<close>

theorem merge_invoked_for_every_fragment_list:
  assumes "w_run w (st_trace s)
             (Run (map PStr [''cargo'', ''test'', ''--no-default-features'']) (st_env s) False None) = Inr r"
    and "paths = w_glob w
             (st_trace s @ [Run (map PStr [''cargo'', ''test'', ''--no-default-features'']) (st_env s) False None])
             (Glob ''**/*.profraw'' True)"
  shows "st_trace (snd (merge_profiles w paths s'))
           = st_trace s' @ [Run (map PStr ([''cargo'', ''profdata'', ''--'', ''merge'', ''-sparse''] @ paths
                                       @ [''-o'', ''rust-cov.profdata''])) (st_env s') False None]
       \<and> (\<exists>es. st_trace (snd (capture_blobs w s))
              = st_trace s @ [Run (map PStr [''cargo'', ''test'', ''--no-default-features'']) (st_env s) False None,
                  Glob ''**/*.profraw'' True,
                  Run (map PStr ([''cargo'', ''profdata'', ''--'', ''merge'', ''-sparse''] @ paths
                                   @ [''-o'', ''rust-cov.profdata''])) (st_env s) False None] @ es
            \<and> (es = [] \<or> es = [Run json_argv (st_env s) True None]))
       \<and> (\<forall>e. w_run w
              (st_trace s @ [Run (map PStr [''cargo'', ''test'', ''--no-default-features'']) (st_env s) False None,
                             Glob ''**/*.profraw'' True])
              (Run (merge_argv paths) (st_env s) False None) = Inl e
            \<longrightarrow> fst (capture_blobs w s) = Inl e)"
proof (intro conjI allI impI)
  show "st_trace (snd (merge_profiles w paths s'))
           = st_trace s' @ [Run (map PStr ([''cargo'', ''profdata'', ''--'', ''merge'', ''-sparse''] @ paths
                                       @ [''-o'', ''rust-cov.profdata''])) (st_env s') False None]"
    by (simp add: merge_profiles_def merge_argv_def session_run_def emit_def Let_def)
next
  let ?t = "Run (map PStr [''cargo'', ''test'', ''--no-default-features'']) (st_env s) False None"
  let ?m = "Run (merge_argv paths) (st_env s) False None"
  show "\<exists>es. st_trace (snd (capture_blobs w s))
              = st_trace s @ [?t, Glob ''**/*.profraw'' True,
                  Run (map PStr ([''cargo'', ''profdata'', ''--'', ''merge'', ''-sparse''] @ paths
                                   @ [''-o'', ''rust-cov.profdata''])) (st_env s) False None] @ es
            \<and> (es = [] \<or> es = [Run json_argv (st_env s) True None])"
  proof (cases "w_run w (st_trace s @ [?t, Glob ''**/*.profraw'' True]) ?m")
    case (Inl e)
    with assms show ?thesis
      by (simp add: capture_blobs_def merge_profiles_def merge_argv_def thenP_def bindP_def
          session_run_def glob_glob_def emit_def Let_def)
  next
    case (Inr x)
    with assms show ?thesis
      by (simp add: capture_blobs_def merge_profiles_def merge_argv_def thenP_def bindP_def
          session_run_def glob_glob_def emit_def Let_def)
  qed
next
  fix e
  assume "w_run w
              (st_trace s @ [Run (map PStr [''cargo'', ''test'', ''--no-default-features'']) (st_env s) False None,
                             Glob ''**/*.profraw'' True])
              (Run (merge_argv paths) (st_env s) False None) = Inl e"
  with assms show "fst (capture_blobs w s) = Inl e"
    by (simp add: capture_blobs_def merge_profiles_def thenP_def bindP_def
        session_run_def glob_glob_def emit_def Let_def)
qed


theorem merge_invoked_for_every_fragment_list_witness:
  "\<exists>es. st_trace (snd (capture_blobs (demo_world [''a.profraw'', ''b.profraw''] (RStr msg_finished) (\<lambda>argv. False))
                            demo_state))
          = [Run (map PStr [''cargo'', ''test'', ''--no-default-features'']) [(''PATH'', ''/usr/bin'')] False None,
             Glob ''**/*.profraw'' True,
             Run (map PStr [''cargo'', ''profdata'', ''--'', ''merge'', ''-sparse'', ''a.profraw'',
                            ''b.profraw'', ''-o'', ''rust-cov.profdata''])
                 [(''PATH'', ''/usr/bin'')] False None] @ es
        \<and> (es = [] \<or> es = [Run json_argv [(''PATH'', ''/usr/bin'')] True None])"
proof -
  let ?w = "demo_world [''a.profraw'', ''b.profraw''] (RStr msg_finished) (\<lambda>argv. False)"
  have r: "w_run ?w h (Run argv env False out) = Inr RTrue" for h argv env out
    by (simp add: demo_world_def)
  have g: "[''a.profraw'', ''b.profraw''] = w_glob ?w h (Glob pat True)" for h pat
    by (simp add: demo_world_def)
  have st: "st_trace demo_state = []" "st_env demo_state = [(''PATH'', ''/usr/bin'')]"
    by (simp_all add: demo_state_def)
  from merge_invoked_for_every_fragment_list[where w = ?w and s = demo_state and r = RTrue
      and paths = "[''a.profraw'', ''b.profraw'']", OF r g]
  show ?thesis by (simp add: st)
qed

text \<open>
  C1 as stated fails on the empty list: with no fragment found the merge command is
  still run, with no input, and where that command exits non-zero the session fails.
\<close>

theorem merge_runs_on_empty_list_counterexample:
  "st_trace (snd (capture_blobs (demo_world [] (RStr msg_finished) (\<lambda>argv. False)) demo_state))
     = [Run (map PStr [''cargo'', ''test'', ''--no-default-features'']) [(''PATH'', ''/usr/bin'')] False None,
        Glob ''**/*.profraw'' True,
        Run (map PStr [''cargo'', ''profdata'', ''--'', ''merge'', ''-sparse'', ''-o'', ''rust-cov.profdata''])
            [(''PATH'', ''/usr/bin'')] False None,
        Run json_argv [(''PATH'', ''/usr/bin'')] True None]
   \<and> fst (rust_coverage (demo_world [] (RStr msg_finished) (\<lambda>argv. argv = merge_argv []))
            demo_session demo_state) = Inl CommandFailed"
  by (simp add: run_defs merge_argv_def json_argv_def)

end
